theory Spec2Isabelle
  imports Complex_Main "HOL-Library.Word"
begin

section \<open>Strings\<close>

text \<open>
  A JavaScript string is a sequence of UTF-16 code units. \<open>utf16\<close> writes an ASCII
  literal as such a sequence.
\<close>

type_synonym jsstring = "16 word list"

definition utf16 :: "string \<Rightarrow> jsstring" where
  "utf16 s = map (\<lambda>c. of_nat (of_char c)) s"

text \<open>
  \<open>String.prototype.trim\<close> removes the code units of the ECMAScript productions
  WhiteSpace and LineTerminator from both ends.
\<close>

definition isWhiteSpace :: "16 word \<Rightarrow> bool" where
  "isWhiteSpace c \<longleftrightarrow>
     c \<in> {0x09, 0x0A, 0x0B, 0x0C, 0x0D, 0x20, 0xA0, 0x1680,
          0x2028, 0x2029, 0x202F, 0x205F, 0x3000, 0xFEFF}
     \<or> (0x2000 \<le> c \<and> c \<le> 0x200A)"

definition trim :: "jsstring \<Rightarrow> jsstring" where
  "trim s = rev (dropWhile isWhiteSpace (rev (dropWhile isWhiteSpace s)))"

section \<open>Data model (types.ts)\<close>

datatype ConnectionState = DISCONNECTED | CONNECTING | CONNECTED | ERROR

datatype Speaker = user | agent | model

text \<open>
  \<open>TranscriptItem\<close>. The \<open>id\<close> string is \<open>Date.now().toString()\<close> followed by a
  suffix; it is kept as the pair of the clock reading and the suffix. \<open>timestamp\<close> is
  the clock reading of \<open>new Date()\<close>, in milliseconds.
\<close>

record TranscriptItem =
  item_id :: "nat \<times> string"
  speaker :: Speaker
  item_text :: jsstring
  timestamp :: nat

section \<open>Inbound messages\<close>

text \<open>
  The fields of \<open>LiveServerMessage\<close> that the message callback reads. Every one of them
  is optional in the SDK's type, so each is an option.
\<close>

datatype Transcription = Transcription (transcription_text: "jsstring option")

record ServerContent =
  inputTranscription :: "Transcription option"
  outputTranscription :: "Transcription option"
  turnComplete :: "bool option"

record LiveServerMessage =
  serverContent :: "ServerContent option"

section \<open>State\<close>

text \<open>
  The promise stored in \<open>LiveApiService.sessionPromise\<close>: still pending, fulfilled with
  a transport handle, or rejected.
\<close>

datatype promise = Pending nat | Fulfilled nat | Rejected

text \<open>
  One record holds the React state and refs of the \<open>LiveSession\<close> component, the
  \<open>transcriptHistory\<close> state it receives from \<open>App\<close>, the private fields of its
  \<open>LiveApiService\<close>, and the part of the environment the handlers act on: the clock,
  the pending timeouts of \<open>setTimeout\<close> (identifier and deadline), the counters
  that name new timeouts, transports and audio objects, the microphone streams whose
  tracks are live, the audio contexts and transports that are open, and the text turns
  sent. The refs \<open>scrollRef\<close>, \<open>processor\<close> and \<open>source\<close> are written
  but never read by the handlers and are left out.

  \<open>setTranscriptHistory\<close> is always called with an updater function, and the item the
  updater appends is built when React runs the updater, from the refs and the clock
  as they are at that moment. React runs an updater inside the call only while the
  hook has no update pending and none left over from an earlier render
  (\<open>historyClean\<close>); otherwise it queues the updater (\<open>historyQueue\<close>) and runs it at
  the next render. \<open>transcriptHistory\<close> is the history as far as it has been computed.
  The other state setters, which are given values, are applied where they are called.
\<close>

text \<open>
  The three updaters of the component: the one of \<open>commitInputToHistory\<close>, which reads
  \<open>currentInputRef\<close>; the one of \<open>handleManualSubmit\<close>, which reads the constant
  \<open>pastedText\<close> of the render it was created in; the one of the TurnComplete branch,
  which reads \<open>currentOutputRef\<close>.
\<close>

datatype update = CommitUser | CommitManual jsstring | CommitAgent

record state =
  connectionState :: ConnectionState
  showPasteInput :: bool
  pastedText :: jsstring
  debounceTimerRef :: "nat option"
  currentInputRef :: jsstring
  currentOutputRef :: jsstring
  liveInputText :: jsstring
  liveOutputText :: jsstring
  transcriptHistory :: "TranscriptItem list"
  historyQueue :: "update list"
  historyClean :: bool
  sessionPromise :: "promise option"
  inputAudioContext :: "nat option"
  mediaStream :: "nat option"
  clock :: nat
  timeouts :: "(nat \<times> nat) list"
  nextTimeout :: nat
  nextHandle :: nat
  nextDevice :: nat
  liveStreams :: "nat list"
  openContexts :: "nat list"
  openTransports :: "nat list"
  sentText :: "(nat \<times> jsstring) list"

section \<open>Timers\<close>

text \<open>
  \<open>clearTimeout\<close> removes the timeout with the given identifier if it is still
  pending and does nothing otherwise. \<open>setTimeout\<close> registers a timeout that is due
  \<open>delay\<close> milliseconds from now and returns its identifier. The only callback ever
  registered is \<open>commitInputToHistory\<close>, so a pending timeout does not store one.
  A browser's identifiers are greater than zero, so the test \<open>if (debounceTimerRef.current)\<close>
  is the test that an identifier has been stored.
\<close>

definition clearTimeout :: "nat \<Rightarrow> state \<Rightarrow> state" where
  "clearTimeout t s = s\<lparr>timeouts := filter (\<lambda>p. fst p \<noteq> t) (timeouts s)\<rparr>"

definition setTimeout :: "nat \<Rightarrow> state \<Rightarrow> nat \<times> state" where
  "setTimeout delay s =
     (nextTimeout s,
      s\<lparr>timeouts := timeouts s @ [(nextTimeout s, clock s + delay)],
        nextTimeout := Suc (nextTimeout s)\<rparr>)"

section \<open>LiveSession.tsx: committing text\<close>

definition userItem :: "nat \<Rightarrow> string \<Rightarrow> jsstring \<Rightarrow> TranscriptItem" where
  "userItem now suffix t =
     \<lparr>item_id = (now, suffix), speaker = user, item_text = t, timestamp = now\<rparr>"

definition modelItem :: "nat \<Rightarrow> jsstring \<Rightarrow> TranscriptItem" where
  "modelItem now t =
     \<lparr>item_id = (now, ''-agent''), speaker = model, item_text = t, timestamp = now\<rparr>"

text \<open>
  Running an updater on the previous history, in the state \<open>s\<close> in which React runs it.
\<close>

definition apply_update :: "update \<Rightarrow> state \<Rightarrow> TranscriptItem list \<Rightarrow> TranscriptItem list" where
  "apply_update u s prev =
     prev @
     [case u of
        CommitUser \<Rightarrow> userItem (clock s) ''-user'' (trim (currentInputRef s))
      | CommitManual t \<Rightarrow> userItem (clock s) ''-manual'' (trim t)
      | CommitAgent \<Rightarrow> modelItem (clock s) (trim (currentOutputRef s))]"

definition setTranscriptHistory :: "update \<Rightarrow> state \<Rightarrow> state" where
  "setTranscriptHistory u s =
     (if historyClean s \<and> historyQueue s = []
      then s\<lparr>transcriptHistory := apply_update u s (transcriptHistory s),
             historyClean := False\<rparr>
      else s\<lparr>historyQueue := historyQueue s @ [u]\<rparr>)"

text \<open>
  A render: React runs the queued updaters in order. Whether the hook is afterwards
  free of pending and left-over updates is React's bookkeeping and is given as \<open>c\<close>.
\<close>

definition render :: "bool \<Rightarrow> state \<Rightarrow> state" where
  "render c s =
     s\<lparr>transcriptHistory := foldl (\<lambda>h u. apply_update u s h) (transcriptHistory s) (historyQueue s),
       historyQueue := [],
       historyClean := c\<rparr>"

definition commitInputToHistory :: "state \<Rightarrow> state" where
  "commitInputToHistory s =
     (let s1 = (case debounceTimerRef s of Some t \<Rightarrow> clearTimeout t s | None \<Rightarrow> s)
      in if trim (currentInputRef s1) \<noteq> []
         then (setTranscriptHistory CommitUser s1)\<lparr>currentInputRef := [], liveInputText := []\<rparr>
         else s1)"

definition handleManualSubmit :: "state \<Rightarrow> state" where
  "handleManualSubmit s =
     (if trim (pastedText s) = [] then s
      else (setTranscriptHistory (CommitManual (pastedText s)) s)
             \<lparr>pastedText := [], showPasteInput := False\<rparr>)"

section \<open>LiveSession.tsx: the message callback\<close>

text \<open>
  The three \<open>if\<close> blocks of the callback, in the order of the source. A chunk is
  appended only when its \<open>text\<close> is present and not the empty string. The prop
  \<open>onTranscriptUpdate\<close> is \<open>handleTranscriptUpdate\<close> of \<open>App\<close>, whose body is empty.
\<close>

definition inputChunk :: "LiveServerMessage \<Rightarrow> jsstring option" where
  "inputChunk msg =
     (case serverContent msg of None \<Rightarrow> None
      | Some c \<Rightarrow> (case inputTranscription c of None \<Rightarrow> None
                   | Some tr \<Rightarrow> transcription_text tr))"

definition outputChunk :: "LiveServerMessage \<Rightarrow> jsstring option" where
  "outputChunk msg =
     (case serverContent msg of None \<Rightarrow> None
      | Some c \<Rightarrow> (case outputTranscription c of None \<Rightarrow> None
                   | Some tr \<Rightarrow> transcription_text tr))"

definition isTurnComplete :: "LiveServerMessage \<Rightarrow> bool" where
  "isTurnComplete msg =
     (case serverContent msg of None \<Rightarrow> False
      | Some c \<Rightarrow> (case turnComplete c of None \<Rightarrow> False | Some b \<Rightarrow> b))"

definition onInputTranscription :: "LiveServerMessage \<Rightarrow> state \<Rightarrow> state" where
  "onInputTranscription msg s =
     (case inputChunk msg of
        None \<Rightarrow> s
      | Some t \<Rightarrow>
          if t = [] then s
          else let s1 = s\<lparr>currentInputRef := currentInputRef s @ t\<rparr>;
                   s2 = s1\<lparr>liveInputText := currentInputRef s1\<rparr>;
                   s3 = (case debounceTimerRef s2 of
                           Some i \<Rightarrow> clearTimeout i s2 | None \<Rightarrow> s2);
                   (i, s4) = setTimeout 1500 s3
               in s4\<lparr>debounceTimerRef := Some i\<rparr>)"

definition onOutputTranscription :: "LiveServerMessage \<Rightarrow> state \<Rightarrow> state" where
  "onOutputTranscription msg s =
     (case outputChunk msg of
        None \<Rightarrow> s
      | Some t \<Rightarrow>
          if t = [] then s
          else let s1 = s\<lparr>currentOutputRef := currentOutputRef s @ t\<rparr>
               in s1\<lparr>liveOutputText := currentOutputRef s1\<rparr>)"

definition onTurnComplete :: "LiveServerMessage \<Rightarrow> state \<Rightarrow> state" where
  "onTurnComplete msg s =
     (if isTurnComplete msg
      then let s1 = commitInputToHistory s
           in if trim (currentOutputRef s1) \<noteq> []
              then (setTranscriptHistory CommitAgent s1)
                     \<lparr>currentOutputRef := [], liveOutputText := []\<rparr>
              else s1
      else s)"

definition onMessage :: "LiveServerMessage \<Rightarrow> state \<Rightarrow> state" where
  "onMessage msg s =
     onTurnComplete msg (onOutputTranscription msg (onInputTranscription msg s))"

section \<open>geminiService.ts: LiveApiService\<close>

datatype failure = DeviceError | PromiseRejected | Suspended

text \<open>
  What the browser answers to \<open>startAudioStream\<close>: the stream and the 16 kHz context
  are created, or \<open>getUserMedia\<close> rejects, or the stream is obtained and the
  \<open>AudioContext\<close> constructor throws. A function that can throw returns the state
  it had reached together with the failure, \<open>Inl\<close>, or the final state, \<open>Inr\<close>.
\<close>

datatype capture = Started | GetUserMediaFailed | AudioContextFailed

definition startAudioStream :: "capture \<Rightarrow> state \<Rightarrow> failure \<times> state + state" where
  "startAudioStream a s =
     (case a of
        GetUserMediaFailed \<Rightarrow> Inl (DeviceError, s)
      | AudioContextFailed \<Rightarrow>
          Inl (DeviceError,
               s\<lparr>mediaStream := Some (nextDevice s),
                 liveStreams := liveStreams s @ [nextDevice s],
                 nextDevice := Suc (nextDevice s)\<rparr>)
      | Started \<Rightarrow>
          Inr (s\<lparr>mediaStream := Some (nextDevice s),
                 liveStreams := liveStreams s @ [nextDevice s],
                 inputAudioContext := Some (Suc (nextDevice s)),
                 openContexts := openContexts s @ [Suc (nextDevice s)],
                 nextDevice := Suc (Suc (nextDevice s))\<rparr>))"

text \<open>
  \<open>connect\<close> up to its \<open>await\<close>: \<open>ai.live.connect\<close> is called and its promise stored.
  What follows is driven by the transport: \<open>onopen\<close>, or the rejection of the promise.
\<close>

definition service_connect :: "state \<Rightarrow> state" where
  "service_connect s =
     s\<lparr>sessionPromise := Some (Pending (nextHandle s)),
       nextHandle := Suc (nextHandle s)\<rparr>"

text \<open>
  \<open>disconnect\<close>. Awaiting a rejected promise throws after the audio objects have been
  released; awaiting a pending promise does not return in this step, and the model has
  no continuation for it.
\<close>

definition service_disconnect :: "state \<Rightarrow> failure \<times> state + state" where
  "service_disconnect s =
     (let s1 = (case mediaStream s of
                  Some m \<Rightarrow> s\<lparr>liveStreams := removeAll m (liveStreams s),
                               mediaStream := None\<rparr>
                | None \<Rightarrow> s);
          s2 = (case inputAudioContext s1 of
                  Some c \<Rightarrow> s1\<lparr>openContexts := removeAll c (openContexts s1),
                                inputAudioContext := None\<rparr>
                | None \<Rightarrow> s1)
      in case sessionPromise s2 of
           None \<Rightarrow> Inr s2
         | Some (Fulfilled h) \<Rightarrow>
             Inr (s2\<lparr>openTransports := removeAll h (openTransports s2),
                    sessionPromise := None\<rparr>)
         | Some Rejected \<Rightarrow> Inl (PromiseRejected, s2)
         | Some (Pending h) \<Rightarrow> Inl (Suspended, s2))"

text \<open>
  \<open>sendText\<close> sends through the fulfilled session; on a promise that is absent or
  rejected nothing is sent, and a turn queued on a pending promise is not tracked.
\<close>

definition sendText :: "jsstring \<Rightarrow> state \<Rightarrow> state" where
  "sendText t s =
     (case sessionPromise s of
        Some (Fulfilled h) \<Rightarrow> s\<lparr>sentText := sentText s @ [(h, t)]\<rparr>
      | _ \<Rightarrow> s)"

text \<open>The speaker label that \<open>analyzeTranscriptForMap\<close> writes before each item's text.\<close>

definition speakerLabel :: "TranscriptItem \<Rightarrow> string" where
  "speakerLabel item = (if speaker item = model then ''AI Co-Pilot'' else ''Human (Microphone)'')"

section \<open>geminiService.ts: createBlob\<close>

text \<open>
  An element of the \<open>Float32Array\<close> is NaN, an infinity, or a finite binary32 number,
  kept as the real number it denotes. \<open>Math.min\<close> and \<open>Math.max\<close> are exact, and so
  are the products with \<open>0x8000\<close> and \<open>0x7FFF\<close> in binary64 (24 significant bits times
  at most 15), so arithmetic on reals computes what the code computes.
\<close>

datatype sample = NaN | NegInf | PosInf | Num real

definition clampSample :: "sample \<Rightarrow> sample" where
  "clampSample x =
     (case x of
        NaN \<Rightarrow> NaN
      | NegInf \<Rightarrow> Num (- 1)
      | PosInf \<Rightarrow> Num 1
      | Num r \<Rightarrow> Num (max (- 1) (min 1 r)))"

definition scaleSample :: "sample \<Rightarrow> sample" where
  "scaleSample s =
     (case s of
        Num r \<Rightarrow> if r < 0 then Num (r * 0x8000) else Num (r * 0x7FFF)
      | NaN \<Rightarrow> NaN
      | NegInf \<Rightarrow> NegInf
      | PosInf \<Rightarrow> PosInf)"

text \<open>
  Storing a number into an \<open>Int16Array\<close> applies ToInt16: NaN and the infinities
  become 0, any other number is truncated towards zero and reduced modulo \<open>2 ^ 16\<close>.
\<close>

definition trunc :: "real \<Rightarrow> int" where
  "trunc v = (if v < 0 then \<lceil>v\<rceil> else \<lfloor>v\<rfloor>)"

definition toInt16 :: "sample \<Rightarrow> 16 word" where
  "toInt16 v = (case v of Num r \<Rightarrow> word_of_int (trunc r) | _ \<Rightarrow> 0)"

text \<open>The first loop, writing \<open>int16[i]\<close> for \<open>i\<close> from 0 to \<open>l - 1\<close>.\<close>

function fillInt16 :: "sample list \<Rightarrow> 16 word list \<Rightarrow> nat \<Rightarrow> 16 word list" where
  "fillInt16 data int16 i =
     (if i < length data
      then fillInt16 data (int16[i := toInt16 (scaleSample (clampSample (data ! i)))]) (Suc i)
      else int16)"
  by pat_completeness auto
termination
  by (relation "measure (\<lambda>(data, int16, i). length data - i)") auto

declare fillInt16.simps [simp del]

text \<open>
  \<open>new Uint8Array(int16.buffer)\<close>: the bytes of the buffer, two for each element, in
  the byte order of the platform, taken to be little-endian.
\<close>

definition uint8View :: "16 word list \<Rightarrow> 8 word list" where
  "uint8View int16 =
     map (\<lambda>k. if even k then ucast (int16 ! (k div 2))
               else ucast (drop_bit 8 (int16 ! (k div 2))))
       [0 ..< 2 * length int16]"

definition fromCharCode :: "8 word \<Rightarrow> 16 word" where
  "fromCharCode b = ucast b"

text \<open>The second loop, appending \<open>String.fromCharCode(bytes[i])\<close> to \<open>binary\<close>.\<close>

function binaryString :: "8 word list \<Rightarrow> jsstring \<Rightarrow> nat \<Rightarrow> jsstring" where
  "binaryString bytes binary i =
     (if i < length bytes
      then binaryString bytes (binary @ [fromCharCode (bytes ! i)]) (Suc i)
      else binary)"
  by pat_completeness auto
termination
  by (relation "measure (\<lambda>(bytes, binary, i). length bytes - i)") auto

declare binaryString.simps [simp del]

text \<open>
  \<open>btoa\<close> of the browser: the Base64 encoding, with padding, of a string whose code
  units are all at most \<open>0xFF\<close>, read as bytes; any other string raises
  \<open>InvalidCharacterError\<close>.
\<close>

definition b64digit :: "nat \<Rightarrow> 16 word" where
  "b64digit n =
     utf16 ''ABCDEFGHIJKLMNOPQRSTUVWXYZabcdefghijklmnopqrstuvwxyz0123456789+/'' ! n"

fun base64 :: "8 word list \<Rightarrow> jsstring" where
  "base64 [] = []"
| "base64 [a] =
     [b64digit (unat a div 4), b64digit (unat a mod 4 * 16), 0x3D, 0x3D]"
| "base64 [a, b] =
     [b64digit (unat a div 4), b64digit (unat a mod 4 * 16 + unat b div 16),
      b64digit (unat b mod 16 * 4), 0x3D]"
| "base64 (a # b # c # bs) =
     [b64digit (unat a div 4), b64digit (unat a mod 4 * 16 + unat b div 16),
      b64digit (unat b mod 16 * 4 + unat c div 64), b64digit (unat c mod 64)] @ base64 bs"

datatype dom_error = InvalidCharacterError

definition btoa :: "jsstring \<Rightarrow> dom_error + jsstring" where
  "btoa s = (if list_all (\<lambda>c. c \<le> 0xFF) s then Inr (base64 (map ucast s))
             else Inl InvalidCharacterError)"

record blob =
  data :: jsstring
  mimeType :: jsstring

definition createBlob :: "sample list \<Rightarrow> dom_error + blob" where
  "createBlob frame =
     (let l = length frame;
          int16 = fillInt16 frame (replicate l 0) 0;
          bytes = uint8View int16;
          binary = binaryString bytes [] 0
      in case btoa binary of
           Inl e \<Rightarrow> Inl e
         | Inr d \<Rightarrow> Inr \<lparr>data = d, mimeType = utf16 ''audio/pcm;rate=16000''\<rparr>)"

text \<open>
  The words of the specification: the 16-bit sample of an input sample, and the two
  bytes of a 16-bit sample in little-endian order.
\<close>

definition quantize :: "sample \<Rightarrow> 16 word" where
  "quantize x = toInt16 (scaleSample (clampSample x))"

definition pcm16le :: "16 word \<Rightarrow> 8 word list" where
  "pcm16le w = [ucast w, ucast (drop_bit 8 w)]"

section \<open>LiveSession.tsx: connection handlers\<close>

definition kickoff :: jsstring where
  "kickoff = utf16 (''Please start the session with a brief, warm preamble for a social '' @
     ''service journey mapping interview and ask the first opening question.'')"

definition handleConnect :: "state \<Rightarrow> state" where
  "handleConnect s = service_connect (s\<lparr>connectionState := CONNECTING\<rparr>)"

definition onOpen :: "state \<Rightarrow> state" where
  "onOpen s = sendText kickoff (s\<lparr>connectionState := CONNECTED\<rparr>)"

definition onError :: "state \<Rightarrow> state" where
  "onError s = s\<lparr>connectionState := ERROR\<rparr>"

definition onClose :: "state \<Rightarrow> state" where
  "onClose s = s\<lparr>connectionState := DISCONNECTED\<rparr>"

text \<open>
  The \<open>onopen\<close> callback that \<open>connect\<close> hands to the SDK, for the transport \<open>h\<close>:
  the transport is open and its promise, if it is the stored one, is fulfilled; then
  \<open>onOpen\<close>, then \<open>startAudioStream\<close>, whose failure is passed to \<open>onError\<close>.
\<close>

definition onopen :: "nat \<Rightarrow> capture \<Rightarrow> state \<Rightarrow> state" where
  "onopen h a s =
     (let s0 = s\<lparr>openTransports := openTransports s @ [h],
                 sessionPromise :=
                   (if sessionPromise s = Some (Pending h) then Some (Fulfilled h)
                    else sessionPromise s)\<rparr>;
          s1 = onOpen s0
      in case startAudioStream a s1 of
           Inr s2 \<Rightarrow> s2
         | Inl (e, s2) \<Rightarrow> onError s2)"

text \<open>The promise of transport \<open>h\<close> rejects: the \<open>catch\<close> of \<open>handleConnect\<close> runs.\<close>

definition connectFailed :: "nat \<Rightarrow> state \<Rightarrow> state" where
  "connectFailed h s =
     s\<lparr>sessionPromise :=
         (if sessionPromise s = Some (Pending h) then Some Rejected else sessionPromise s),
       connectionState := ERROR\<rparr>"

definition handleDisconnect :: "state \<Rightarrow> failure \<times> state + state" where
  "handleDisconnect s =
     (case service_disconnect s of
        Inl x \<Rightarrow> Inl x
      | Inr s1 \<Rightarrow>
          Inr (let s2 = s1\<lparr>connectionState := DISCONNECTED\<rparr>;
                   s3 = commitInputToHistory s2
               in s3\<lparr>liveInputText := [], liveOutputText := [],
                     currentInputRef := [], currentOutputRef := []\<rparr>))"

section \<open>Time\<close>

text \<open>
  The pending timeout that is due first; among equal deadlines, the one registered
  first.
\<close>

fun earliest :: "(nat \<times> nat) list \<Rightarrow> (nat \<times> nat) option" where
  "earliest [] = None"
| "earliest (x # xs) =
     (case earliest xs of
        None \<Rightarrow> Some x
      | Some y \<Rightarrow> if snd y < snd x then Some y else Some x)"

definition due :: "nat \<Rightarrow> state \<Rightarrow> (nat \<times> nat) list" where
  "due t s = filter (\<lambda>p. snd p \<le> t) (timeouts s)"

lemma earliest_mem: "earliest xs = Some x \<Longrightarrow> x \<in> set xs"
  by (induction xs arbitrary: x) (auto split: option.splits if_splits)

lemma earliest_None: "earliest xs = None \<longleftrightarrow> xs = []"
  by (induction xs) (auto split: option.splits)

lemma setTranscriptHistory_other:
  "timeouts (setTranscriptHistory u s) = timeouts s"
  "debounceTimerRef (setTranscriptHistory u s) = debounceTimerRef s"
  "clock (setTranscriptHistory u s) = clock s"
  "currentInputRef (setTranscriptHistory u s) = currentInputRef s"
  "currentOutputRef (setTranscriptHistory u s) = currentOutputRef s"
  "liveInputText (setTranscriptHistory u s) = liveInputText s"
  "liveOutputText (setTranscriptHistory u s) = liveOutputText s"
  "pastedText (setTranscriptHistory u s) = pastedText s"
  "showPasteInput (setTranscriptHistory u s) = showPasteInput s"
  "connectionState (setTranscriptHistory u s) = connectionState s"
  "sessionPromise (setTranscriptHistory u s) = sessionPromise s"
  "mediaStream (setTranscriptHistory u s) = mediaStream s"
  "inputAudioContext (setTranscriptHistory u s) = inputAudioContext s"
  "nextTimeout (setTranscriptHistory u s) = nextTimeout s"
  "nextHandle (setTranscriptHistory u s) = nextHandle s"
  "nextDevice (setTranscriptHistory u s) = nextDevice s"
  "liveStreams (setTranscriptHistory u s) = liveStreams s"
  "openContexts (setTranscriptHistory u s) = openContexts s"
  "openTransports (setTranscriptHistory u s) = openTransports s"
  "sentText (setTranscriptHistory u s) = sentText s"
  by (simp_all add: setTranscriptHistory_def)

lemma timeouts_commitInputToHistory:
  "timeouts (commitInputToHistory s) =
     (case debounceTimerRef s of
        Some t \<Rightarrow> filter (\<lambda>p. fst p \<noteq> t) (timeouts s)
      | None \<Rightarrow> timeouts s)"
  by (simp add: commitInputToHistory_def clearTimeout_def Let_def setTranscriptHistory_other
      split: option.splits)

lemma length_timeouts_commit:
  "length (timeouts (commitInputToHistory s)) \<le> length (timeouts s)"
  by (simp add: timeouts_commitInputToHistory split: option.splits)

text \<open>
  The clock moves to \<open>t\<close>. Each timeout that falls due on the way fires at its
  deadline, in order: it leaves the pending list and \<open>commitInputToHistory\<close> runs.
\<close>

function runTimers :: "nat \<Rightarrow> state \<Rightarrow> state" where
  "runTimers t s =
     (case earliest (due t s) of
        None \<Rightarrow> s\<lparr>clock := max (clock s) t\<rparr>
      | Some p \<Rightarrow>
          runTimers t
            (commitInputToHistory
               (s\<lparr>timeouts := filter (\<lambda>q. fst q \<noteq> fst p) (timeouts s),
                  clock := max (clock s) (snd p)\<rparr>)))"
  by pat_completeness auto
termination
proof (relation "measure (\<lambda>(t, s). length (timeouts s))")
  show "wf (measure (\<lambda>(t, s). length (timeouts s)))" by simp
next
  fix t s p
  assume e: "earliest (due t s) = Some p"
  let ?s' = "s\<lparr>timeouts := filter (\<lambda>q. fst q \<noteq> fst p) (timeouts s),
               clock := max (clock s) (snd p)\<rparr>"
  from e have "p \<in> set (timeouts s)"
    by (auto dest: earliest_mem simp: due_def)
  then have "length (filter (\<lambda>q. fst q \<noteq> fst p) (timeouts s)) < length (timeouts s)"
    by (intro length_filter_less [of p]) auto
  moreover have "length (timeouts (commitInputToHistory ?s')) \<le> length (timeouts ?s')"
    by (rule length_timeouts_commit)
  ultimately show "((t, commitInputToHistory ?s'), (t, s))
      \<in> measure (\<lambda>(t, s). length (timeouts s))"
    by simp
qed

declare runTimers.simps [simp del]

definition advance :: "nat \<Rightarrow> state \<Rightarrow> state" where
  "advance dt s = runTimers (clock s + dt) s"

section \<open>Events\<close>

text \<open>
  What can happen to a mounted \<open>LiveSession\<close>. The header button is \<open>End Session\<close>
  (\<open>handleDisconnect\<close>) when the state is \<open>CONNECTED\<close>, and \<open>Start Interview\<close>
  (\<open>handleConnect\<close>) otherwise, disabled while \<open>CONNECTING\<close>. The button
  \<open>Add to Transcript\<close> is disabled while the pasted text trims to nothing. A failure of
  \<open>handleDisconnect\<close> is an unhandled rejection: the state it had reached stays.
  \<open>Render c\<close> is a render by React, between two handlers.
\<close>

datatype event =
    ClickSessionButton
  | TogglePaste
  | EditPastedText jsstring
  | ClickAddToTranscript
  | TransportOpened nat capture
  | ConnectRejected nat
  | Message LiveServerMessage
  | TransportError
  | TransportClosed nat
  | Advance nat
  | Render bool

fun step :: "event \<Rightarrow> state \<Rightarrow> state" where
  "step ClickSessionButton s =
     (if connectionState s = CONNECTED
      then (case handleDisconnect s of Inl (e, s') \<Rightarrow> s' | Inr s' \<Rightarrow> s')
      else if connectionState s = CONNECTING then s
      else handleConnect s)"
| "step TogglePaste s = s\<lparr>showPasteInput := \<not> showPasteInput s\<rparr>"
| "step (EditPastedText t) s = s\<lparr>pastedText := t\<rparr>"
| "step ClickAddToTranscript s =
     (if showPasteInput s \<and> trim (pastedText s) \<noteq> [] then handleManualSubmit s else s)"
| "step (TransportOpened h a) s = onopen h a s"
| "step (ConnectRejected h) s = connectFailed h s"
| "step (Message msg) s = onMessage msg s"
| "step TransportError s = onError s"
| "step (TransportClosed h) s =
     onClose (s\<lparr>openTransports := removeAll h (openTransports s)\<rparr>)"
| "step (Advance dt) s = advance dt s"
| "step (Render c) s = render c s"

fun run :: "event list \<Rightarrow> state \<Rightarrow> state" where
  "run [] s = s"
| "run (e # es) s = run es (step e s)"

text \<open>A freshly mounted component at clock reading 0, with the history given.\<close>

definition initial :: "TranscriptItem list \<Rightarrow> state" where
  "initial h =
     \<lparr>connectionState = DISCONNECTED, showPasteInput = False, pastedText = [],
      debounceTimerRef = None, currentInputRef = [], currentOutputRef = [],
      liveInputText = [], liveOutputText = [], transcriptHistory = h,
      historyQueue = [], historyClean = True,
      sessionPromise = None, inputAudioContext = None, mediaStream = None,
      clock = 0, timeouts = [], nextTimeout = 1, nextHandle = 0, nextDevice = 0,
      liveStreams = [], openContexts = [], openTransports = [], sentText = []\<rparr>"

section \<open>Vocabulary of the properties\<close>

text \<open>
  Every pending timeout is the one whose identifier \<open>debounceTimerRef\<close> holds.
\<close>

definition timers_owned :: "state \<Rightarrow> bool" where
  "timers_owned s \<longleftrightarrow> (\<forall>p \<in> set (timeouts s). debounceTimerRef s = Some (fst p))"

text \<open>
  The next updater passed to \<open>setTranscriptHistory\<close> will run inside the call.
\<close>

definition eager :: "state \<Rightarrow> bool" where
  "eager s \<longleftrightarrow> historyClean s \<and> historyQueue s = []"

text \<open>
  The text a channel has accumulated once the transcription blocks of the callback
  have run on a message.
\<close>

definition inputAfter :: "LiveServerMessage \<Rightarrow> state \<Rightarrow> jsstring" where
  "inputAfter msg s = currentInputRef s @ (case inputChunk msg of Some t \<Rightarrow> t | None \<Rightarrow> [])"
definition outputAfter :: "LiveServerMessage \<Rightarrow> state \<Rightarrow> jsstring" where
  "outputAfter msg s = currentOutputRef s @ (case outputChunk msg of Some t \<Rightarrow> t | None \<Rightarrow> [])"


text \<open>Messages with a single part, for stating properties and for examples.\<close>

definition humanDelta :: "jsstring \<Rightarrow> LiveServerMessage" where
  "humanDelta t = \<lparr>serverContent = Some \<lparr>inputTranscription = Some (Transcription (Some t)),
       outputTranscription = None, turnComplete = None\<rparr>\<rparr>"
definition agentDelta :: "jsstring \<Rightarrow> LiveServerMessage" where
  "agentDelta t = \<lparr>serverContent = Some \<lparr>inputTranscription = None,
       outputTranscription = Some (Transcription (Some t)), turnComplete = None\<rparr>\<rparr>"
definition turnCompleteMsg :: LiveServerMessage where
  "turnCompleteMsg = \<lparr>serverContent = Some \<lparr>inputTranscription = None,
       outputTranscription = None, turnComplete = Some True\<rparr>\<rparr>"



text \<open>
  What every item written by the component satisfies, and the relation between a state
  and a later one whose history has grown by such items only.
\<close>

definition committed_ok :: "TranscriptItem \<Rightarrow> bool" where
  "committed_ok e \<longleftrightarrow> trim (item_text e) = item_text e \<and> speaker e \<noteq> agent"

text \<open>
  The speakers of the history as the next render will show it: those of the items
  computed so far, followed by those of the queued updaters.
\<close>

fun updateSpeaker :: "update \<Rightarrow> Speaker" where
  "updateSpeaker CommitUser = user"
| "updateSpeaker (CommitManual t) = user"
| "updateSpeaker CommitAgent = model"

definition pendingSpeakers :: "state \<Rightarrow> Speaker list" where
  "pendingSpeakers s = map speaker (transcriptHistory s) @ map updateSpeaker (historyQueue s)"

definition appended :: "state \<Rightarrow> state \<Rightarrow> bool" where
  "appended s s' \<longleftrightarrow>
     (\<exists>new. transcriptHistory s' = transcriptHistory s @ new \<and> list_all committed_ok new)"

text \<open>
  A message with text of both channels and TurnComplete.
\<close>

definition fullTurn :: "jsstring \<Rightarrow> jsstring \<Rightarrow> LiveServerMessage" where
  "fullTurn q r = \<lparr>serverContent = Some \<lparr>inputTranscription = Some (Transcription (Some q)),
       outputTranscription = Some (Transcription (Some r)), turnComplete = Some True\<rparr>\<rparr>"

text \<open>
  Example state: a connected session with text pending on both channels, reached
  from a fresh component.
\<close>

definition sessionExample :: state where
  "sessionExample =
     run [ClickSessionButton, TransportOpened 0 Started,
          Message (humanDelta (utf16 ''I felt'')), Advance 200,
          Message (agentDelta (utf16 ''Thinking''))] (initial [])"


text \<open>
  A session whose microphone was refused after the transport had opened: the state
  is \<open>ERROR\<close> and the transport is open.
\<close>

definition failedExample :: state where
  "failedExample =
     run [ClickSessionButton, TransportOpened 0 GetUserMediaFailed] (initial [])"

text \<open>
  The same state with other values in the fields that describe the connection: the
  connection state, the transport promise, the audio objects and the open transports.
\<close>

definition relabel ::
  "ConnectionState \<Rightarrow> promise option \<Rightarrow> nat option \<Rightarrow> nat option \<Rightarrow> nat list \<Rightarrow> state \<Rightarrow> state" where
  "relabel c p m a ts s =
     s\<lparr>connectionState := c, sessionPromise := p, mediaStream := m,
       inputAudioContext := a, openTransports := ts\<rparr>"

text \<open>
  Vocabulary of the quiet period. \<open>elapsed\<close> is the time that passes over a list of
  events. An event is \<open>quiet\<close> when it is the passing of time, a render, or a message
  that carries no text for the human channel and no TurnComplete; it may carry agent
  text. An event \<open>keeps_clean\<close> unless it is a render that leaves the history hook with
  a left-over update. A state
  is \<open>armed b d\<close> when the human buffer is \<open>b\<close> and the one pending timeout, held by
  \<open>debounceTimerRef\<close>, is due at \<open>d\<close>, later than now. \<open>burst ds\<close> is the event list of
  the human chunks \<open>fst\<close> of \<open>ds\<close>, each followed by its quiet events.
\<close>

fun elapsed :: "event list \<Rightarrow> nat" where
  "elapsed [] = 0"
| "elapsed (Advance dt # es) = dt + elapsed es"
| "elapsed (e # es) = elapsed es"






section \<open>Trimming\<close>

lemma trim_Nil: "trim [] = []" by (simp add: trim_def)

lemma dropWhile_rev_prefix:
  assumes "a = [] \<or> \<not> P (hd a)"
  shows "dropWhile P (rev (dropWhile P (rev a))) = rev (dropWhile P (rev a))"
proof (cases "rev (dropWhile P (rev a))")
  case Nil then show ?thesis by (simp del: rev_is_Nil_conv rev_rev_ident)
next
  case (Cons x xs)
  have "a = rev (dropWhile P (rev a)) @ rev (takeWhile P (rev a))"
    by (metis rev_append rev_rev_ident takeWhile_dropWhile_id)
  with Cons have "hd a = x" by (metis hd_append2 list.sel(1) list.distinct(1))
  moreover from Cons have "a \<noteq> []" by auto
  ultimately have "\<not> P x" using assms by auto
  with Cons show ?thesis by (simp del: rev_is_Nil_conv rev_rev_ident)
qed

lemma trim_idem: "trim (trim s) = trim s"
proof -
  let ?a = "dropWhile isWhiteSpace s"
  have h: "?a = [] \<or> \<not> isWhiteSpace (hd ?a)"
    by (metis hd_dropWhile)
  have "dropWhile isWhiteSpace (rev (dropWhile isWhiteSpace (rev ?a))) = rev (dropWhile isWhiteSpace (rev ?a))"
    using h by (rule dropWhile_rev_prefix [where P = isWhiteSpace and a = ?a])
  then show ?thesis
    by (simp add: trim_def dropWhile_idem)
qed

lemma trim_empty_iff: "trim s = [] \<longleftrightarrow> (\<forall>c \<in> set s. isWhiteSpace c)"
proof
  assume "trim s = []"
  then have a: "\<forall>x \<in> set (dropWhile isWhiteSpace s). isWhiteSpace x"
    by (simp add: trim_def dropWhile_eq_Nil_conv)
  have "dropWhile isWhiteSpace s = []"
  proof (rule ccontr)
    assume n: "dropWhile isWhiteSpace s \<noteq> []"
    then have "\<not> isWhiteSpace (hd (dropWhile isWhiteSpace s))" by (rule hd_dropWhile)
    moreover from n have "hd (dropWhile isWhiteSpace s) \<in> set (dropWhile isWhiteSpace s)"
      by (rule hd_in_set)
    ultimately show False using a by blast
  qed
  then show "\<forall>c \<in> set s. isWhiteSpace c" by (simp add: dropWhile_eq_Nil_conv)
next
  assume "\<forall>c \<in> set s. isWhiteSpace c"
  then show "trim s = []" by (auto simp: trim_def dest: set_dropWhileD)
qed

section \<open>Field-wise effect of the handlers\<close>

lemma service_disconnect_fixed:
  "mediaStream s = None \<Longrightarrow> inputAudioContext s = None \<Longrightarrow> sessionPromise s = None
   \<Longrightarrow> service_disconnect s = Inr s"
  by (simp add: service_disconnect_def)

lemma service_disconnect_released:
  "service_disconnect s = Inr s1 \<Longrightarrow>
     mediaStream s1 = None \<and> inputAudioContext s1 = None \<and> sessionPromise s1 = None"
  by (cases "mediaStream s"; cases "inputAudioContext s"; cases "sessionPromise s")
     (auto simp: service_disconnect_def Let_def split: promise.splits)

lemma commit_fixed:
  "trim (currentInputRef s) = [] \<Longrightarrow>
   (\<forall>p \<in> set (timeouts s). Some (fst p) \<noteq> debounceTimerRef s) \<Longrightarrow>
   commitInputToHistory s = s"
  by (cases "debounceTimerRef s") (auto simp: commitInputToHistory_def clearTimeout_def filter_id_conv)

lemma handleDisconnect_fixed:
  assumes "mediaStream s = None" "inputAudioContext s = None" "sessionPromise s = None"
    "connectionState s = DISCONNECTED" "currentInputRef s = []" "currentOutputRef s = []"
    "liveInputText s = []" "liveOutputText s = []"
    "\<forall>p \<in> set (timeouts s). Some (fst p) \<noteq> debounceTimerRef s"
  shows "handleDisconnect s = Inr s"
proof -
  have a: "service_disconnect s = Inr s" using assms by (simp add: service_disconnect_fixed)
  have b: "s\<lparr>connectionState := DISCONNECTED\<rparr> = s" using assms(4) by (cases s) simp
  have c: "commitInputToHistory s = s" using assms by (intro commit_fixed) (simp_all add: trim_Nil)
  have d: "s\<lparr>liveInputText := [], liveOutputText := [],
                     currentInputRef := [], currentOutputRef := []\<rparr> = s"
    using assms(5-8) by (cases s) simp
  show ?thesis by (simp add: handleDisconnect_def a b c d)
qed

lemma setTranscriptHistory_history:
  "transcriptHistory (setTranscriptHistory u s) =
     (if eager s then apply_update u s (transcriptHistory s) else transcriptHistory s)"
  "historyQueue (setTranscriptHistory u s) =
     (if eager s then historyQueue s else historyQueue s @ [u])"
  "historyClean (setTranscriptHistory u s) = (historyClean s \<and> \<not> eager s)"
  "\<not> eager (setTranscriptHistory u s)"
  by (auto simp: setTranscriptHistory_def eager_def)

lemma onInput_fields:
  "currentInputRef (onInputTranscription msg s) = inputAfter msg s"
  "currentOutputRef (onInputTranscription msg s) = currentOutputRef s"
  "transcriptHistory (onInputTranscription msg s) = transcriptHistory s"
  "historyQueue (onInputTranscription msg s) = historyQueue s"
  "historyClean (onInputTranscription msg s) = historyClean s"
  "clock (onInputTranscription msg s) = clock s"
  "connectionState (onInputTranscription msg s) = connectionState s"
  by (simp_all add: onInputTranscription_def inputAfter_def setTimeout_def clearTimeout_def Let_def
      split: option.splits)

lemma onOutput_fields:
  "currentInputRef (onOutputTranscription msg s) = currentInputRef s"
  "currentOutputRef (onOutputTranscription msg s) = outputAfter msg s"
  "transcriptHistory (onOutputTranscription msg s) = transcriptHistory s"
  "historyQueue (onOutputTranscription msg s) = historyQueue s"
  "historyClean (onOutputTranscription msg s) = historyClean s"
  "clock (onOutputTranscription msg s) = clock s"
  "timeouts (onOutputTranscription msg s) = timeouts s"
  "debounceTimerRef (onOutputTranscription msg s) = debounceTimerRef s"
  by (simp_all add: onOutputTranscription_def outputAfter_def Let_def split: option.splits)

lemma commit_fields:
  "currentOutputRef (commitInputToHistory s) = currentOutputRef s"
  "clock (commitInputToHistory s) = clock s"
  "debounceTimerRef (commitInputToHistory s) = debounceTimerRef s"
  "connectionState (commitInputToHistory s) = connectionState s"
  "mediaStream (commitInputToHistory s) = mediaStream s"
  "inputAudioContext (commitInputToHistory s) = inputAudioContext s"
  "sessionPromise (commitInputToHistory s) = sessionPromise s"
  "currentInputRef (commitInputToHistory s) =
     (if trim (currentInputRef s) = [] then currentInputRef s else [])"
  by (simp_all add: commitInputToHistory_def clearTimeout_def Let_def setTranscriptHistory_other
      split: option.splits)

lemma commit_history:
  "transcriptHistory (commitInputToHistory s) =
     (if trim (currentInputRef s) \<noteq> [] \<and> eager s
      then transcriptHistory s @ [userItem (clock s) ''-user'' (trim (currentInputRef s))]
      else transcriptHistory s)"
  "historyQueue (commitInputToHistory s) =
     (if trim (currentInputRef s) \<noteq> [] \<and> \<not> eager s
      then historyQueue s @ [CommitUser] else historyQueue s)"
  "historyClean (commitInputToHistory s) =
     (historyClean s \<and> (trim (currentInputRef s) = [] \<or> \<not> eager s))"
  by (cases "debounceTimerRef s";
      simp add: commitInputToHistory_def clearTimeout_def Let_def setTranscriptHistory_history
        eager_def apply_update_def)+

lemma commit_not_eager:
  "trim (currentInputRef s) \<noteq> [] \<Longrightarrow> \<not> eager (commitInputToHistory s)"
  by (auto simp: eager_def commit_history)

lemma onInput_timers:
  "timers_owned s \<Longrightarrow> timers_owned (onInputTranscription msg s)"
  by (auto simp: timers_owned_def onInputTranscription_def setTimeout_def clearTimeout_def Let_def
      split: option.splits)

lemma commit_timers_clear:
  "\<forall>p \<in> set (timeouts (commitInputToHistory s)). Some (fst p) \<noteq> debounceTimerRef s"
  by (auto simp: timeouts_commitInputToHistory split: option.splits)


lemma onTurnComplete_fields:
  "isTurnComplete msg \<Longrightarrow> timeouts (onTurnComplete msg s) = timeouts (commitInputToHistory s)"
  "debounceTimerRef (onTurnComplete msg s) = debounceTimerRef s"
  "clock (onTurnComplete msg s) = clock s"
  "isTurnComplete msg \<Longrightarrow> currentInputRef (onTurnComplete msg s) =
     (if trim (currentInputRef s) = [] then currentInputRef s else [])"
  "isTurnComplete msg \<Longrightarrow> currentOutputRef (onTurnComplete msg s) =
     (if trim (currentOutputRef s) = [] then currentOutputRef s else [])"
  by (simp_all add: onTurnComplete_def Let_def commit_fields setTranscriptHistory_other)

lemma onTurnComplete_history:
  assumes "isTurnComplete msg"
  shows "transcriptHistory (onTurnComplete msg s) =
     (if trim (currentOutputRef s) \<noteq> [] \<and> eager (commitInputToHistory s)
      then transcriptHistory (commitInputToHistory s) @
             [modelItem (clock s) (trim (currentOutputRef s))]
      else transcriptHistory (commitInputToHistory s))"
    and "historyQueue (onTurnComplete msg s) =
     (if trim (currentOutputRef s) \<noteq> [] \<and> \<not> eager (commitInputToHistory s)
      then historyQueue (commitInputToHistory s) @ [CommitAgent]
      else historyQueue (commitInputToHistory s))"
  using assms
  by (simp_all add: onTurnComplete_def Let_def setTranscriptHistory_history commit_fields
      apply_update_def)

lemmas message_defs = humanDelta_def agentDelta_def turnCompleteMsg_def fullTurn_def
  inputChunk_def outputChunk_def isTurnComplete_def inputAfter_def outputAfter_def
lemmas handler_defs = onMessage_def onTurnComplete_def onInputTranscription_def
  onOutputTranscription_def commitInputToHistory_def clearTimeout_def setTimeout_def Let_def
  setTranscriptHistory_def apply_update_def render_def handleManualSubmit_def
lemmas string_defs = trim_def utf16_def isWhiteSpace_def
lemmas service_defs = service_connect_def service_disconnect_def startAudioStream_def
  sendText_def handleConnect_def onOpen_def onError_def onClose_def onopen_def
  connectFailed_def handleDisconnect_def
lemmas timer_defs = advance_def due_def runTimers.simps

lemma sessionExample_fields:
  "sessionPromise sessionExample = Some (Fulfilled 0)"
  "currentInputRef sessionExample = utf16 ''I felt''"
  "currentOutputRef sessionExample = utf16 ''Thinking''"
  "transcriptHistory sessionExample = []"
  "historyQueue sessionExample = []"
  "historyClean sessionExample"
  "clock sessionExample = 200"
  "connectionState sessionExample = CONNECTED"
  "timeouts sessionExample = [(1, 1500)]"
  "liveStreams sessionExample = [0]"
  by (simp_all add: sessionExample_def initial_def timer_defs
      message_defs handler_defs service_defs utf16_def)

section \<open>TurnComplete\<close>

lemma turnComplete_both_channels:
  assumes tc: "isTurnComplete msg" and q: "historyQueue s = []"
    and i: "trim (inputAfter msg s) \<noteq> []" and o: "trim (outputAfter msg s) \<noteq> []"
  shows "transcriptHistory (render c (onMessage msg s)) =
           transcriptHistory s @
           [userItem (clock s) ''-user'' (if historyClean s then trim (inputAfter msg s) else []),
            modelItem (clock s) []]"
proof -
  let ?b = "onOutputTranscription msg (onInputTranscription msg s)"
  let ?c = "commitInputToHistory ?b"
  have b: "currentInputRef ?b = inputAfter msg s" "currentOutputRef ?b = outputAfter msg s"
    "transcriptHistory ?b = transcriptHistory s" "historyQueue ?b = []"
    "historyClean ?b = historyClean s" "clock ?b = clock s"
    by (simp_all add: onOutput_fields onInput_fields outputAfter_def q)
  have ne: "\<not> eager ?c" using i b(1) by (simp add: commit_not_eager)
  have s': "onMessage msg s =
      (setTranscriptHistory CommitAgent ?c)\<lparr>currentOutputRef := [], liveOutputText := []\<rparr>"
    using tc o b(2) by (simp add: onMessage_def onTurnComplete_def Let_def commit_fields)
  have h: "transcriptHistory (onMessage msg s) = transcriptHistory ?c"
    "historyQueue (onMessage msg s) = historyQueue ?c @ [CommitAgent]"
    "currentInputRef (onMessage msg s) = []" "currentOutputRef (onMessage msg s) = []"
    "clock (onMessage msg s) = clock s"
    using ne i b by (simp_all add: s' setTranscriptHistory_history setTranscriptHistory_other
        commit_fields)
  show ?thesis
  proof (cases "historyClean s")
    case True
    with b have "eager ?b" by (simp add: eager_def)
    with i b have "transcriptHistory ?c = transcriptHistory s @
        [userItem (clock s) ''-user'' (trim (inputAfter msg s))]" "historyQueue ?c = []"
      by (simp_all add: commit_history)
    with h True show ?thesis by (simp add: render_def apply_update_def trim_Nil)
  next
    case False
    with b have "\<not> eager ?b" by (simp add: eager_def)
    with i b have "transcriptHistory ?c = transcriptHistory s" "historyQueue ?c = [CommitUser]"
      by (simp_all add: commit_history)
    with h False show ?thesis by (simp add: render_def apply_update_def trim_Nil)
  qed
qed

text \<open>
  C2 fails on the code. The claim: on TurnComplete the human channel's text is
  committed at once and the agent channel's text is committed if and only if it is
  not empty after trimming. On a fresh session let the human chunk \<open>I felt\<close>, the
  agent chunk \<open>Go on\<close> and a TurnComplete message arrive, each followed by a render.
  The history then holds the \<open>user\<close> item \<open>I felt\<close> and a \<open>model\<close> item whose text is
  empty: the human commit has just queued an update on the hook, so the agent updater
  runs at the render, after the handler has reset \<open>currentOutputRef\<close>, and the agent's
  text is lost. By \<open>turnComplete_both_channels\<close> this happens whenever both channels
  hold text at a TurnComplete.
\<close>

theorem turnComplete_agent_text_lost:
  "transcriptHistory
     (run [Message (humanDelta (utf16 ''I felt'')), Render True,
           Message (agentDelta (utf16 ''Go on '')), Render True,
           Message turnCompleteMsg, Render False] (initial []))
   = [userItem 0 ''-user'' (utf16 ''I felt''), modelItem 0 []]
   \<and> currentOutputRef
     (run [Message (humanDelta (utf16 ''I felt'')), Render True,
           Message (agentDelta (utf16 ''Go on '')), Render True,
           Message turnCompleteMsg, Render False] (initial [])) = []"
  by (simp add: initial_def message_defs handler_defs string_defs)

section \<open>Teardown\<close>

lemma service_disconnect_completes:
  "sessionPromise s = None \<or> (\<exists>h. sessionPromise s = Some (Fulfilled h)) \<Longrightarrow>
   \<exists>s1. service_disconnect s = Inr s1"
  by (cases "mediaStream s"; cases "inputAudioContext s")
     (auto simp: service_disconnect_def Let_def)

lemma handleDisconnect_Inr:
  "handleDisconnect s = Inr s' \<Longrightarrow>
   \<exists>s1. service_disconnect s = Inr s1 \<and>
     s' = (commitInputToHistory (s1\<lparr>connectionState := DISCONNECTED\<rparr>))
            \<lparr>liveInputText := [], liveOutputText := [],
             currentInputRef := [], currentOutputRef := []\<rparr>"
  by (auto simp: handleDisconnect_def Let_def split: sum.splits)

text \<open>
  C3 fails on the code. The claim: on teardown the human channel's text is flushed
  into the history. Let a session be connected and the human chunk \<open>x\<close> arrive, let
  the user then add the pasted note \<open>note\<close> to the transcript, and then end the
  session. The history update of the note leaves the hook with a left-over update, so
  the updater of the flush runs at the render after \<open>handleDisconnect\<close> has reset
  \<open>currentInputRef\<close>: the history gets a \<open>user\<close> item with empty text and \<open>x\<close> is
  lost. The buffers are empty and the state is \<open>DISCONNECTED\<close>, as the claim says.
\<close>

theorem disconnect_flush_text_lost:
  "transcriptHistory
     (run [ClickSessionButton, TransportOpened 0 Started, Render True,
           Message (humanDelta (utf16 ''x'')), Render True,
           TogglePaste, Render True, EditPastedText (utf16 ''note''), Render True,
           ClickAddToTranscript, Render False,
           ClickSessionButton, Render False] (initial []))
   = [userItem 0 ''-manual'' (utf16 ''note''), userItem 0 ''-user'' []]
   \<and> currentInputRef
     (run [ClickSessionButton, TransportOpened 0 Started, Render True,
           Message (humanDelta (utf16 ''x'')), Render True,
           TogglePaste, Render True, EditPastedText (utf16 ''note''), Render True,
           ClickAddToTranscript, Render False,
           ClickSessionButton, Render False] (initial [])) = []
   \<and> connectionState
     (run [ClickSessionButton, TransportOpened 0 Started, Render True,
           Message (humanDelta (utf16 ''x'')), Render True,
           TogglePaste, Render True, EditPastedText (utf16 ''note''), Render True,
           ClickAddToTranscript, Render False,
           ClickSessionButton, Render False] (initial [])) = DISCONNECTED"
  by (simp add: initial_def message_defs handler_defs string_defs service_defs)

text \<open>
  C6. A second \<open>handleDisconnect\<close> after one that completed changes nothing: it
  completes and returns the very state it was given, so there is no state transition,
  no stream, context or transport is released again, and nothing is written to the
  history or queued for it.
\<close>

theorem disconnect_twice:
  assumes "handleDisconnect s = Inr s1"
  shows "handleDisconnect s1 = Inr s1"
proof -
  from assms obtain s0 where s0: "service_disconnect s = Inr s0"
    and s1: "s1 = (commitInputToHistory (s0\<lparr>connectionState := DISCONNECTED\<rparr>))
            \<lparr>liveInputText := [], liveOutputText := [],
             currentInputRef := [], currentOutputRef := []\<rparr>"
    using handleDisconnect_Inr by blast
  have r: "mediaStream s0 = None" "inputAudioContext s0 = None" "sessionPromise s0 = None"
    using service_disconnect_released [OF s0] by simp_all
  have t: "\<forall>p \<in> set (timeouts (commitInputToHistory (s0\<lparr>connectionState := DISCONNECTED\<rparr>))).
           Some (fst p) \<noteq> debounceTimerRef s0"
    using commit_timers_clear [of "s0\<lparr>connectionState := DISCONNECTED\<rparr>"] by simp
  show ?thesis
    by (rule handleDisconnect_fixed) (simp_all add: s1 commit_fields r t)
qed

theorem disconnect_twice_witness:
  "\<exists>s1. handleDisconnect sessionExample = Inr s1 \<and> handleDisconnect s1 = Inr s1"
proof -
  have "\<exists>s1. service_disconnect sessionExample = Inr s1"
    by (rule service_disconnect_completes) (simp add: sessionExample_fields)
  then obtain s1 where "handleDisconnect sessionExample = Inr s1"
    by (auto simp: handleDisconnect_def)
  then show ?thesis using disconnect_twice [of sessionExample s1] by blast
qed

section \<open>What is written to the history\<close>

lemma appended_same: "transcriptHistory s' = transcriptHistory s \<Longrightarrow> appended s s'"
  by (simp add: appended_def)

lemma appended_trans: "appended a b \<Longrightarrow> appended b c \<Longrightarrow> appended a c"
  by (auto simp: appended_def)

lemma apply_update_ok:
  "\<exists>e. apply_update u s h = h @ [e] \<and> committed_ok e \<and> speaker e = updateSpeaker u"
  by (cases u) (simp_all add: apply_update_def committed_ok_def userItem_def modelItem_def trim_idem)

lemma appended_set: "appended s (setTranscriptHistory u s)"
proof (cases "eager s")
  case True
  from apply_update_ok [of u s "transcriptHistory s"] obtain e where
    "apply_update u s (transcriptHistory s) = transcriptHistory s @ [e]" "committed_ok e"
    by blast
  with True show ?thesis by (auto simp: appended_def setTranscriptHistory_history)
next
  case False
  then show ?thesis by (simp add: appended_same setTranscriptHistory_history)
qed

lemma foldl_apply_update:
  "\<exists>new. foldl (\<lambda>h u. apply_update u s h) h us = h @ new \<and> list_all committed_ok new
     \<and> map speaker new = map updateSpeaker us"
proof (induction us arbitrary: h)
  case Nil
  show ?case by simp
next
  case (Cons u us)
  from apply_update_ok [of u s h] obtain e where
    e: "apply_update u s h = h @ [e]" "committed_ok e" "speaker e = updateSpeaker u" by blast
  from Cons [of "h @ [e]"] obtain new where
    n: "foldl (\<lambda>h u. apply_update u s h) (h @ [e]) us = (h @ [e]) @ new"
       "list_all committed_ok new" "map speaker new = map updateSpeaker us" by blast
  from e n have "foldl (\<lambda>h u. apply_update u s h) h (u # us) = h @ (e # new)
      \<and> list_all committed_ok (e # new) \<and> map speaker (e # new) = map updateSpeaker (u # us)"
    by simp
  then show ?case by blast
qed

lemma appended_render: "appended s (render c s)"
  using foldl_apply_update [of s "transcriptHistory s" "historyQueue s"]
  by (auto simp: appended_def render_def)


lemma appended_commit: "appended s (commitInputToHistory s)"
  by (auto simp: appended_def commit_history committed_ok_def userItem_def trim_idem)

lemma appended_manual: "appended s (handleManualSubmit s)"
proof (cases "trim (pastedText s) = []")
  case True
  then show ?thesis by (simp add: handleManualSubmit_def appended_same)
next
  case False
  have "appended s (setTranscriptHistory (CommitManual (pastedText s)) s)"
    by (rule appended_set)
  then show ?thesis using False by (simp add: handleManualSubmit_def appended_def)
qed

lemma appended_onTurnComplete: "appended s (onTurnComplete msg s)"
proof (cases "isTurnComplete msg")
  case True
  have a: "appended s (commitInputToHistory s)" by (rule appended_commit)
  have "appended (commitInputToHistory s) (onTurnComplete msg s)"
    using True
    by (auto simp: appended_def onTurnComplete_history committed_ok_def modelItem_def trim_idem)
  with a show ?thesis by (rule appended_trans)
next
  case False
  then show ?thesis by (simp add: appended_def onTurnComplete_def)
qed

lemma appended_onMessage: "appended s (onMessage msg s)"
proof -
  have "appended s (onOutputTranscription msg (onInputTranscription msg s))"
    by (rule appended_same) (simp add: onOutput_fields onInput_fields)
  then show ?thesis
    unfolding onMessage_def by (rule appended_trans) (rule appended_onTurnComplete)
qed

lemma service_disconnect_history:
  "service_disconnect s = Inl (e, s') \<or> service_disconnect s = Inr s' \<Longrightarrow>
   transcriptHistory s' = transcriptHistory s \<and> historyQueue s' = historyQueue s
   \<and> historyClean s' = historyClean s"
  by (cases "mediaStream s"; cases "inputAudioContext s"; cases "sessionPromise s")
     (auto simp: service_disconnect_def Let_def split: promise.splits)

lemma appended_handleDisconnect:
  "handleDisconnect s = Inl (e, s') \<or> handleDisconnect s = Inr s' \<Longrightarrow> appended s s'"
proof (cases "service_disconnect s")
  case (Inl x)
  assume "handleDisconnect s = Inl (e, s') \<or> handleDisconnect s = Inr s'"
  with Inl have "service_disconnect s = Inl (e, s')" by (simp add: handleDisconnect_def)
  then show ?thesis using service_disconnect_history by (intro appended_same) blast
next
  case (Inr s1)
  assume "handleDisconnect s = Inl (e, s') \<or> handleDisconnect s = Inr s'"
  with Inr have s': "s' = (commitInputToHistory (s1\<lparr>connectionState := DISCONNECTED\<rparr>))
            \<lparr>liveInputText := [], liveOutputText := [],
             currentInputRef := [], currentOutputRef := []\<rparr>"
    by (simp add: handleDisconnect_def Let_def)
  have a: "appended s (s1\<lparr>connectionState := DISCONNECTED\<rparr>)"
    using Inr service_disconnect_history [of s e s1] by (intro appended_same) simp
  have b: "appended (s1\<lparr>connectionState := DISCONNECTED\<rparr>)
             (commitInputToHistory (s1\<lparr>connectionState := DISCONNECTED\<rparr>))"
    by (rule appended_commit)
  have c: "appended (commitInputToHistory (s1\<lparr>connectionState := DISCONNECTED\<rparr>)) s'"
    by (rule appended_same) (simp add: s')
  from a b c show ?thesis by (blast intro: appended_trans)
qed

lemma history_connection_handlers:
  "transcriptHistory (handleConnect s) = transcriptHistory s"
  "transcriptHistory (onopen h a s) = transcriptHistory s"
  "transcriptHistory (connectFailed h s) = transcriptHistory s"
  "transcriptHistory (onError s) = transcriptHistory s"
  "transcriptHistory (onClose s) = transcriptHistory s"
  by (simp_all add: service_defs Let_def split: capture.splits option.splits promise.splits)

lemma appended_runTimers: "appended s (runTimers t s)"
proof (induction t s rule: runTimers.induct)
  case (1 t s)
  show ?case
  proof (cases "earliest (due t s)")
    case None
    then show ?thesis by (simp add: runTimers.simps [of t s] appended_def)
  next
    case (Some p)
    let ?s1 = "s\<lparr>timeouts := filter (\<lambda>q. fst q \<noteq> fst p) (timeouts s),
                  clock := max (clock s) (snd p)\<rparr>"
    have "appended s ?s1" by (simp add: appended_def)
    moreover have "appended ?s1 (commitInputToHistory ?s1)" by (rule appended_commit)
    moreover have "appended (commitInputToHistory ?s1) (runTimers t (commitInputToHistory ?s1))"
      using "1.IH" [OF Some] .
    ultimately show ?thesis
      using Some by (simp add: runTimers.simps [of t s]) (blast intro: appended_trans)
  qed
qed

lemma appended_step: "appended s (step e s)"
proof (cases e)
  case ClickSessionButton
  then show ?thesis
    using appended_handleDisconnect [of s]
    by (auto simp: appended_same history_connection_handlers split: sum.splits)
next
  case (Message msg)
  then show ?thesis by (simp add: appended_onMessage)
next
  case (Advance dt)
  then show ?thesis by (simp add: advance_def appended_runTimers)
next
  case ClickAddToTranscript
  then show ?thesis by (simp add: appended_manual appended_same)
next
  case (Render c)
  then show ?thesis by (simp add: appended_render)
qed (simp_all add: appended_same history_connection_handlers)

lemma appended_run: "appended s (run es s)"
proof (induction es arbitrary: s)
  case Nil
  show ?case by (simp add: appended_same)
next
  case (Cons e es)
  have "appended s (step e s)" by (rule appended_step)
  moreover have "appended (step e s) (run es (step e s))" by (rule Cons.IH)
  ultimately show ?case by (simp add: appended_trans)
qed

lemma appended_speaker: "appended s s' \<Longrightarrow>
  \<exists>new. transcriptHistory s' = transcriptHistory s @ new \<and>
    (\<forall>e \<in> set new. (speaker e = user \<or> speaker e = model) \<and> trim (item_text e) = item_text e)"
proof -
  assume "appended s s'"
  then obtain new where n: "transcriptHistory s' = transcriptHistory s @ new"
    and ok: "list_all committed_ok new" by (auto simp: appended_def)
  have "\<forall>e \<in> set new. (speaker e = user \<or> speaker e = model) \<and> trim (item_text e) = item_text e"
  proof
    fix e assume "e \<in> set new"
    with ok have c: "committed_ok e" by (simp add: list_all_iff)
    then show "(speaker e = user \<or> speaker e = model) \<and> trim (item_text e) = item_text e"
      by (cases "speaker e") (simp_all add: committed_ok_def)
  qed
  with n show ?thesis by blast
qed

lemma pending_set:
  "pendingSpeakers (setTranscriptHistory u s) = pendingSpeakers s @ [updateSpeaker u]"
proof (cases "eager s")
  case True
  from apply_update_ok [of u s "transcriptHistory s"] obtain e where
    "apply_update u s (transcriptHistory s) = transcriptHistory s @ [e]"
    "speaker e = updateSpeaker u" by blast
  with True show ?thesis
    by (simp add: pendingSpeakers_def setTranscriptHistory_history) (simp add: eager_def)
next
  case False
  then show ?thesis by (simp add: pendingSpeakers_def setTranscriptHistory_history)
qed

lemma pending_update:
  "pendingSpeakers (s\<lparr>currentInputRef := a, liveInputText := b\<rparr>) = pendingSpeakers s"
  "pendingSpeakers (s\<lparr>currentOutputRef := a, liveOutputText := b\<rparr>) = pendingSpeakers s"
  "pendingSpeakers (s\<lparr>pastedText := a, showPasteInput := c\<rparr>) = pendingSpeakers s"
  "pendingSpeakers (clearTimeout t s) = pendingSpeakers s"
  "pendingSpeakers (s\<lparr>timeouts := x\<rparr>) = pendingSpeakers s"
  by (simp_all add: pendingSpeakers_def clearTimeout_def)

lemma pending_commit:
  "pendingSpeakers (commitInputToHistory s) =
     pendingSpeakers s @ (if trim (currentInputRef s) = [] then [] else [user])"
  by (cases "debounceTimerRef s")
     (simp_all add: commitInputToHistory_def Let_def pending_update pending_set clearTimeout_def)

lemma pending_manual:
  "pendingSpeakers (handleManualSubmit s) =
     pendingSpeakers s @ (if trim (pastedText s) = [] then [] else [user])"
  by (simp add: handleManualSubmit_def pending_update pending_set)

lemma pending_onTurnComplete:
  "isTurnComplete msg \<Longrightarrow>
   pendingSpeakers (onTurnComplete msg s) =
     pendingSpeakers (commitInputToHistory s) @
     (if trim (currentOutputRef s) = [] then [] else [model])"
  by (simp add: onTurnComplete_def Let_def pending_update pending_set commit_fields)

lemma pending_render:
  "map speaker (transcriptHistory (render c s)) = pendingSpeakers s"
  "historyQueue (render c s) = []"
  using foldl_apply_update [of s "transcriptHistory s" "historyQueue s"]
  by (auto simp: render_def pendingSpeakers_def)

text \<open>
  C7 fails on the code. The claim: text that is empty after trimming is never
  appended, so every item of the history has non-empty text. One message on a fresh
  session with the human text \<open>q\<close>, the agent text \<open>r\<close> and TurnComplete, followed by
  a render, leaves the history with the \<open>user\<close> item \<open>q\<close> and a \<open>model\<close> item whose
  text is empty. The tests on the trimmed buffers are there, but the item is built
  when the updater runs, from a ref that the handler has reset by then. Nor is blank
  text discarded: when the timeout fires on a buffer of two spaces, the buffer keeps
  them.
\<close>

theorem empty_text_committed:
  "map item_text (transcriptHistory
     (run [Message (fullTurn (utf16 ''q'') (utf16 ''r'')), Render False] (initial [])))
   = [utf16 ''q'', []]
   \<and> map speaker (transcriptHistory
     (run [Message (fullTurn (utf16 ''q'') (utf16 ''r'')), Render False] (initial [])))
   = [user, model]
   \<and> currentOutputRef
     (run [Message (fullTurn (utf16 ''q'') (utf16 ''r'')), Render False] (initial [])) = []
   \<and> currentInputRef
     (run [Message (humanDelta (utf16 ''  '')), Render True, Advance 1500] (initial []))
     = utf16 ''  ''"
  by (simp add: initial_def message_defs handler_defs string_defs timer_defs
      userItem_def modelItem_def)

text \<open>
  C10. Over every sequence of events the history grows only by items whose speaker is
  \<open>user\<close> or \<open>model\<close>, never \<open>agent\<close>, and whose text is its own trim. The three
  writers: \<open>commitInputToHistory\<close> and \<open>handleManualSubmit\<close> add a \<open>user\<close> entry,
  the agent commit at TurnComplete adds a \<open>model\<close> entry, at once or at the next
  render, which turns every queued update into an item of the speaker recorded for
  it. The analysis labels a \<open>model\<close> item \<open>AI Co-Pilot\<close> and a \<open>user\<close> item
  \<open>Human (Microphone)\<close>.
\<close>

theorem committed_speaker_and_trim:
  "(\<exists>new. transcriptHistory (run es s) = transcriptHistory s @ new
      \<and> (\<forall>e \<in> set new. (speaker e = user \<or> speaker e = model)
                       \<and> trim (item_text e) = item_text e))
   \<and> pendingSpeakers (commitInputToHistory s) =
       pendingSpeakers s @ (if trim (currentInputRef s) = [] then [] else [user])
   \<and> pendingSpeakers (handleManualSubmit s) =
       pendingSpeakers s @ (if trim (pastedText s) = [] then [] else [user])
   \<and> (isTurnComplete msg \<longrightarrow>
        pendingSpeakers (onTurnComplete msg s) =
          pendingSpeakers (commitInputToHistory s) @
          (if trim (currentOutputRef s) = [] then [] else [model]))
   \<and> map speaker (transcriptHistory (render c s)) = pendingSpeakers s
   \<and> historyQueue (render c s) = []
   \<and> speakerLabel (userItem n sfx t) = ''Human (Microphone)''
   \<and> speakerLabel (modelItem n t) = ''AI Co-Pilot''"
proof -
  have 1: "\<exists>new. transcriptHistory (run es s) = transcriptHistory s @ new
      \<and> (\<forall>e \<in> set new. (speaker e = user \<or> speaker e = model)
                       \<and> trim (item_text e) = item_text e)"
    using appended_run [of s es] by (rule appended_speaker)
  have 5: "speakerLabel (userItem n sfx t) = ''Human (Microphone)''
   \<and> speakerLabel (modelItem n t) = ''AI Co-Pilot''"
    by (simp add: userItem_def modelItem_def speakerLabel_def)
  from 1 5 pending_commit [of s] pending_manual [of s] pending_onTurnComplete [of msg s]
    pending_render [of c s]
  show ?thesis by blast
qed

lemma sessionExample_turn:
  "transcriptHistory (run [Message turnCompleteMsg, Render False] sessionExample)
   = [userItem 200 ''-user'' (utf16 ''I felt''), modelItem 200 []]"
  by (simp add: sessionExample_def initial_def message_defs handler_defs string_defs
      timer_defs service_defs)

theorem committed_speaker_and_trim_witness:
  "isTurnComplete turnCompleteMsg
   \<and> transcriptHistory (run [Message turnCompleteMsg, Render False] sessionExample)
       = [userItem 200 ''-user'' (utf16 ''I felt''), modelItem 200 []]
   \<and> map speaker (transcriptHistory (run [Message turnCompleteMsg, Render False] sessionExample))
       = [user, model]
   \<and> map (trim \<circ> item_text)
        (transcriptHistory (run [Message turnCompleteMsg, Render False] sessionExample))
       = map item_text
        (transcriptHistory (run [Message turnCompleteMsg, Render False] sessionExample))
   \<and> pendingSpeakers (onTurnComplete turnCompleteMsg sessionExample) = [user, model]
   \<and> pendingSpeakers (commitInputToHistory sessionExample) = [user]"
proof -
  have h: "isTurnComplete turnCompleteMsg" by (simp add: message_defs)
  have t: "trim (utf16 ''Thinking'') \<noteq> []" "trim (utf16 ''I felt'') \<noteq> []"
    by (simp_all add: string_defs)
  have p: "pendingSpeakers sessionExample = []"
    by (simp add: pendingSpeakers_def sessionExample_fields)
  note T = committed_speaker_and_trim [of "[Message turnCompleteMsg, Render False]"
      sessionExample turnCompleteMsg]
  from T have a: "pendingSpeakers (commitInputToHistory sessionExample) = [user]"
    using t p by (simp add: sessionExample_fields)
  from T h have b: "pendingSpeakers (onTurnComplete turnCompleteMsg sessionExample) = [user, model]"
    using t p a by (simp add: sessionExample_fields)
  have c: "trim ([] :: jsstring) = []" by (rule trim_Nil)
  have d: "trim (utf16 ''I felt'') = utf16 ''I felt''" by (simp add: string_defs)
  from h a b show ?thesis
    by (simp add: sessionExample_turn [simplified] userItem_def modelItem_def c d)
qed

section \<open>Error and Closed\<close>

lemma runTimers_preserves:
  assumes c: "\<And>s. f (commitInputToHistory s) = f s"
    and u: "\<And>s ts c. f (s\<lparr>timeouts := ts, clock := c\<rparr>) = f s"
    and k: "\<And>s c. f (s\<lparr>clock := c\<rparr>) = f s"
  shows "f (runTimers t s) = f s"
proof (induction t s rule: runTimers.induct)
  case (1 t s)
  show ?case
  proof (cases "earliest (due t s)")
    case None
    then show ?thesis by (simp add: runTimers.simps [of t s] k)
  next
    case (Some p)
    then show ?thesis using "1.IH" [OF Some] by (simp add: runTimers.simps [of t s] c u)
  qed
qed

lemma commit_resources:
  "nextHandle (commitInputToHistory s) = nextHandle s"
  "liveStreams (commitInputToHistory s) = liveStreams s"
  "openContexts (commitInputToHistory s) = openContexts s"
  "openTransports (commitInputToHistory s) = openTransports s"
  by (simp_all add: commitInputToHistory_def clearTimeout_def Let_def setTranscriptHistory_other
      split: option.splits)

lemma advance_resources:
  "nextHandle (advance dt s) = nextHandle s"
  "liveStreams (advance dt s) = liveStreams s"
  "openContexts (advance dt s) = openContexts s"
  unfolding advance_def
  by (rule runTimers_preserves; simp add: commit_resources)+

lemma onMessage_resources:
  "nextHandle (onMessage msg s) = nextHandle s"
  "liveStreams (onMessage msg s) = liveStreams s"
  "openContexts (onMessage msg s) = openContexts s"
  by (simp_all add: onMessage_def onTurnComplete_def onInputTranscription_def
      onOutputTranscription_def clearTimeout_def setTimeout_def Let_def commit_resources
      setTranscriptHistory_other split: option.splits)

lemma onopen_resources:
  "nextHandle (onopen h a s) = nextHandle s"
  "\<exists>new. liveStreams (onopen h a s) = liveStreams s @ new"
  "\<exists>new. openContexts (onopen h a s) = openContexts s @ new"
  by (simp_all add: service_defs Let_def split: capture.splits option.splits promise.splits)

lemma service_disconnect_nextHandle:
  "service_disconnect s = Inl (e, s') \<or> service_disconnect s = Inr s' \<Longrightarrow>
   nextHandle s' = nextHandle s"
  by (cases "mediaStream s"; cases "inputAudioContext s"; cases "sessionPromise s")
     (auto simp: service_disconnect_def Let_def split: promise.splits)

lemma handleDisconnect_nextHandle:
  "handleDisconnect s = Inl (e, s') \<or> handleDisconnect s = Inr s' \<Longrightarrow>
   nextHandle s' = nextHandle s"
proof (cases "service_disconnect s")
  case (Inl x)
  assume "handleDisconnect s = Inl (e, s') \<or> handleDisconnect s = Inr s'"
  with Inl have "service_disconnect s = Inl (e, s')" by (simp add: handleDisconnect_def)
  then show ?thesis using service_disconnect_nextHandle by blast
next
  case (Inr s1)
  assume "handleDisconnect s = Inl (e, s') \<or> handleDisconnect s = Inr s'"
  with Inr have s': "s' = (commitInputToHistory (s1\<lparr>connectionState := DISCONNECTED\<rparr>))
            \<lparr>liveInputText := [], liveOutputText := [],
             currentInputRef := [], currentOutputRef := []\<rparr>"
    by (simp add: handleDisconnect_def Let_def)
  from Inr have "nextHandle s1 = nextHandle s" using service_disconnect_nextHandle by blast
  then show ?thesis by (simp add: s' commit_resources)
qed

lemma step_no_click:
  "e \<noteq> ClickSessionButton \<Longrightarrow>
   nextHandle (step e s) = nextHandle s
   \<and> (\<exists>new. liveStreams (step e s) = liveStreams s @ new)
   \<and> (\<exists>new. openContexts (step e s) = openContexts s @ new)"
  by (cases e)
     (simp_all add: advance_resources onMessage_resources onopen_resources
        handleManualSubmit_def connectFailed_def onError_def onClose_def render_def
        setTranscriptHistory_other)

lemma run_no_click:
  "ClickSessionButton \<notin> set es \<Longrightarrow>
   nextHandle (run es s) = nextHandle s
   \<and> (\<exists>new. liveStreams (run es s) = liveStreams s @ new)
   \<and> (\<exists>new. openContexts (run es s) = openContexts s @ new)"
proof (induction es arbitrary: s)
  case Nil
  show ?case by simp
next
  case (Cons e es)
  then have e: "e \<noteq> ClickSessionButton" and es: "ClickSessionButton \<notin> set es" by auto
  from step_no_click [OF e, of s] obtain n1 m1 where
    a: "nextHandle (step e s) = nextHandle s" "liveStreams (step e s) = liveStreams s @ n1"
       "openContexts (step e s) = openContexts s @ m1"
    by blast
  from Cons.IH [OF es, of "step e s"] obtain n2 m2 where
    b: "nextHandle (run es (step e s)) = nextHandle (step e s)"
       "liveStreams (run es (step e s)) = liveStreams (step e s) @ n2"
       "openContexts (run es (step e s)) = openContexts (step e s) @ m2"
    by blast
  from a b show ?case by simp
qed

text \<open>
  C4, as the code has it. An inbound Error sets the connection state to \<open>ERROR\<close> and
  an inbound Closed sets it to \<open>DISCONNECTED\<close>, and the callbacks change nothing else
  in the session: the buffers, the timeouts, the history, the stored promise, the
  microphone stream and the audio context are as before, so capture goes on. No
  reconnection is attempted: over any sequence of events without a click on the
  session button no transport is requested (\<open>nextHandle\<close> stays) and no live stream
  and no open audio context is released.
\<close>

theorem error_and_closed_only_set_state:
  "step TransportError s = s\<lparr>connectionState := ERROR\<rparr>
   \<and> onClose s = s\<lparr>connectionState := DISCONNECTED\<rparr>
   \<and> step (TransportClosed h) s =
       s\<lparr>openTransports := removeAll h (openTransports s), connectionState := DISCONNECTED\<rparr>
   \<and> (ClickSessionButton \<notin> set es \<longrightarrow>
        nextHandle (run es s) = nextHandle s
        \<and> (\<exists>new. liveStreams (run es s) = liveStreams s @ new)
        \<and> (\<exists>new. openContexts (run es s) = openContexts s @ new))"
  using run_no_click [of es s] by (simp add: onError_def onClose_def)

theorem error_and_closed_only_set_state_witness:
  "ClickSessionButton \<notin> set [TransportError, Advance 5000, Message turnCompleteMsg, TransportClosed 0]
   \<and> nextHandle sessionExample = 1
   \<and> nextHandle (run [TransportError, Advance 5000, Message turnCompleteMsg, TransportClosed 0]
        sessionExample) = 1
   \<and> connectionState (step TransportError sessionExample) = ERROR
   \<and> liveStreams (step TransportError sessionExample) = [0]
   \<and> currentInputRef (step TransportError sessionExample) = utf16 ''I felt''
   \<and> timeouts (step TransportError sessionExample) = [(1, 1500)]"
proof -
  let ?es = "[TransportError, Advance 5000, Message turnCompleteMsg, TransportClosed 0]"
  have n: "nextHandle sessionExample = 1"
    by (simp add: sessionExample_def initial_def timer_defs
      message_defs handler_defs service_defs utf16_def)
  have c: "ClickSessionButton \<notin> set ?es" by simp
  note T = error_and_closed_only_set_state [of sessionExample 0 ?es]
  from T c have a: "nextHandle (run ?es sessionExample) = nextHandle sessionExample"
    by blast
  from T have b: "step TransportError sessionExample = sessionExample\<lparr>connectionState := ERROR\<rparr>"
    by blast
  have d: "connectionState (step TransportError sessionExample) = ERROR"
    "liveStreams (step TransportError sessionExample) = [0]"
    "currentInputRef (step TransportError sessionExample) = utf16 ''I felt''"
    "timeouts (step TransportError sessionExample) = [(1, 1500)]"
    unfolding b by (simp_all add: sessionExample_fields)
  from n c a d show ?thesis by (simp only: simp_thms)
qed

text \<open>
  C4 as stated fails: in the connected example the microphone stream 0 is live, and
  it is still live, and still stored, after an Error and after a Closed event.
\<close>

theorem error_keeps_capture_counterexample:
  "liveStreams sessionExample = [0]
   \<and> liveStreams (step TransportError sessionExample) = [0]
   \<and> mediaStream (step TransportError sessionExample) = Some 0
   \<and> liveStreams (step (TransportClosed 0) sessionExample) = [0]
   \<and> mediaStream (step (TransportClosed 0) sessionExample) = Some 0"
  by (simp add: sessionExample_def initial_def timer_defs
      message_defs handler_defs service_defs utf16_def)

section \<open>Connecting\<close>

lemma failedExample_fields:
  "connectionState failedExample = ERROR"
  "openTransports failedExample = [0]"
  "nextHandle failedExample = 1"
  "sessionPromise failedExample = Some (Fulfilled 0)"
  by (simp_all add: failedExample_def initial_def service_defs)

text \<open>
  C5, as the code has it. The guard is the session button, not \<open>handleConnect\<close>:
  while \<open>CONNECTING\<close> a click changes nothing; while \<open>CONNECTED\<close> the button ends
  the session and requests no transport; from \<open>DISCONNECTED\<close> and from \<open>ERROR\<close> a
  click is \<open>handleConnect\<close>. \<open>handleConnect\<close> itself checks nothing: in every state it
  moves to \<open>CONNECTING\<close> and stores a new pending promise, leaving the open transports,
  the channel buffers and the history as they are.
\<close>

theorem connect_gated_by_button:
  "(connectionState s = CONNECTING \<longrightarrow> step ClickSessionButton s = s)
   \<and> (connectionState s = CONNECTED \<longrightarrow>
        nextHandle (step ClickSessionButton s) = nextHandle s)
   \<and> (connectionState s = DISCONNECTED \<or> connectionState s = ERROR \<longrightarrow>
        step ClickSessionButton s = handleConnect s)
   \<and> connectionState (handleConnect s) = CONNECTING
   \<and> sessionPromise (handleConnect s) = Some (Pending (nextHandle s))
   \<and> nextHandle (handleConnect s) = Suc (nextHandle s)
   \<and> openTransports (handleConnect s) = openTransports s
   \<and> currentInputRef (handleConnect s) = currentInputRef s
   \<and> currentOutputRef (handleConnect s) = currentOutputRef s
   \<and> transcriptHistory (handleConnect s) = transcriptHistory s"
proof -
  have 1: "connectionState s = CONNECTING \<longrightarrow> step ClickSessionButton s = s" by simp
  have 2: "connectionState s = CONNECTED \<longrightarrow>
        nextHandle (step ClickSessionButton s) = nextHandle s"
    using handleDisconnect_nextHandle [of s]
    by (cases "handleDisconnect s") auto
  have 3: "connectionState s = DISCONNECTED \<or> connectionState s = ERROR \<longrightarrow>
        step ClickSessionButton s = handleConnect s" by auto
  have 4: "connectionState (handleConnect s) = CONNECTING
   \<and> sessionPromise (handleConnect s) = Some (Pending (nextHandle s))
   \<and> nextHandle (handleConnect s) = Suc (nextHandle s)
   \<and> openTransports (handleConnect s) = openTransports s
   \<and> currentInputRef (handleConnect s) = currentInputRef s
   \<and> currentOutputRef (handleConnect s) = currentOutputRef s
   \<and> transcriptHistory (handleConnect s) = transcriptHistory s"
    by (simp add: handleConnect_def service_connect_def)
  from 1 2 3 4 show ?thesis by blast
qed

theorem connect_gated_by_button_witness:
  "connectionState sessionExample = CONNECTED
   \<and> nextHandle (step ClickSessionButton sessionExample) = nextHandle sessionExample
   \<and> connectionState failedExample = ERROR
   \<and> step ClickSessionButton failedExample = handleConnect failedExample
   \<and> sessionPromise (step ClickSessionButton failedExample) = Some (Pending 1)
   \<and> connectionState (handleConnect failedExample) = CONNECTING
   \<and> step ClickSessionButton (handleConnect failedExample) = handleConnect failedExample"
  using connect_gated_by_button [of sessionExample] connect_gated_by_button [of failedExample]
    connect_gated_by_button [of "handleConnect failedExample"]
  by (simp add: sessionExample_fields failedExample_fields)

text \<open>
  C5 as stated fails: \<open>handleConnect\<close> on the connected example changes the state to
  \<open>CONNECTING\<close> and replaces the fulfilled promise by a pending one; and with clicks
  alone, after the microphone was refused, a second transport opens while the first
  is still open.
\<close>

theorem connect_while_connected_counterexample:
  "connectionState sessionExample = CONNECTED
   \<and> sessionPromise sessionExample = Some (Fulfilled 0)
   \<and> connectionState (handleConnect sessionExample) = CONNECTING
   \<and> sessionPromise (handleConnect sessionExample) = Some (Pending 1)
   \<and> openTransports
        (run [ClickSessionButton, TransportOpened 0 GetUserMediaFailed,
              ClickSessionButton, TransportOpened 1 Started] (initial [])) = [0, 1]"
  by (simp add: sessionExample_def initial_def timer_defs
      message_defs handler_defs service_defs utf16_def)

section \<open>Events after a disconnect\<close>

lemma relabel_set:
  "setTranscriptHistory u (relabel c p m a ts s) = relabel c p m a ts (setTranscriptHistory u s)"
  by (cases u) (simp_all add: relabel_def setTranscriptHistory_def apply_update_def)

lemma relabel_commit:
  "commitInputToHistory (relabel c p m a ts s) = relabel c p m a ts (commitInputToHistory s)"
proof -
  have r: "\<And>x. (relabel c p m a ts x)\<lparr>currentInputRef := [], liveInputText := []\<rparr>
      = relabel c p m a ts (x\<lparr>currentInputRef := [], liveInputText := []\<rparr>)"
    "\<And>x ts'. (relabel c p m a ts s)\<lparr>timeouts := ts'\<rparr> = relabel c p m a ts (s\<lparr>timeouts := ts'\<rparr>)"
    "\<And>x. currentInputRef (relabel c p m a ts x) = currentInputRef x"
    "debounceTimerRef (relabel c p m a ts s) = debounceTimerRef s"
    "timeouts (relabel c p m a ts s) = timeouts s"
    by (simp_all add: relabel_def)
  show ?thesis
    by (cases "debounceTimerRef s")
       (simp_all add: commitInputToHistory_def clearTimeout_def Let_def r relabel_set)
qed

lemma relabel_onInput:
  "onInputTranscription msg (relabel c p m a ts s) = relabel c p m a ts (onInputTranscription msg s)"
  by (cases "inputChunk msg"; cases "debounceTimerRef s")
     (simp_all add: relabel_def onInputTranscription_def clearTimeout_def setTimeout_def Let_def)

lemma relabel_onOutput:
  "onOutputTranscription msg (relabel c p m a ts s) = relabel c p m a ts (onOutputTranscription msg s)"
  by (cases "outputChunk msg")
     (simp_all add: relabel_def onOutputTranscription_def Let_def)

lemma relabel_fields:
  "currentOutputRef (relabel c p m a ts s) = currentOutputRef s"
  "clock (relabel c p m a ts s) = clock s"
  "transcriptHistory (relabel c p m a ts s) = transcriptHistory s"
  by (simp_all add: relabel_def)

lemma relabel_onTurnComplete:
  "onTurnComplete msg (relabel c p m a ts s) = relabel c p m a ts (onTurnComplete msg s)"
proof (cases "isTurnComplete msg")
  case False
  then show ?thesis by (simp add: onTurnComplete_def)
next
  case True
  have r: "\<And>x. (relabel c p m a ts x)\<lparr>currentOutputRef := [], liveOutputText := []\<rparr>
      = relabel c p m a ts (x\<lparr>currentOutputRef := [], liveOutputText := []\<rparr>)"
    by (simp add: relabel_def)
  from True show ?thesis
    by (simp add: onTurnComplete_def Let_def relabel_commit relabel_fields commit_fields
        relabel_set r)
qed

lemma relabel_onMessage:
  "onMessage msg (relabel c p m a ts s) = relabel c p m a ts (onMessage msg s)"
  by (simp add: onMessage_def relabel_onInput relabel_onOutput relabel_onTurnComplete)

lemma onInput_arms:
  "inputChunk msg = Some t \<Longrightarrow> t \<noteq> [] \<Longrightarrow>
   debounceTimerRef (onInputTranscription msg s) = Some (nextTimeout s) \<and>
   timeouts (onInputTranscription msg s) =
     (case debounceTimerRef s of
        Some i \<Rightarrow> filter (\<lambda>p. fst p \<noteq> i) (timeouts s)
      | None \<Rightarrow> timeouts s) @ [(nextTimeout s, clock s + 1500)]"
  by (cases "debounceTimerRef s")
     (simp_all add: onInputTranscription_def clearTimeout_def setTimeout_def Let_def)

lemma afterDisconnect_fields:
  "connectionState (run [ClickSessionButton] sessionExample) = DISCONNECTED"
  "sessionPromise (run [ClickSessionButton] sessionExample) = None"
  "currentInputRef (run [ClickSessionButton] sessionExample) = []"
  "nextTimeout (run [ClickSessionButton] sessionExample) = 2"
  "clock (run [ClickSessionButton] sessionExample) = 200"
  "timeouts (run [ClickSessionButton] sessionExample) = []"
  "transcriptHistory (run [ClickSessionButton] sessionExample)
       = [userItem 200 ''-user'' (utf16 ''I felt'')]"
  by (simp_all add: sessionExample_def initial_def timer_defs
      message_defs handler_defs service_defs string_defs)

text \<open>
  C8, as the code has it. The callbacks never look at the connection state, the
  promise, the audio objects or the open transports: the message callback does the
  same to the buffers, the timeouts and the history whatever these are. So in every
  state, also after a disconnect, an Error sets \<open>ERROR\<close>, a Closed sets
  \<open>DISCONNECTED\<close>, a message without TurnComplete accumulates its text on both
  channels, and a non-empty human chunk starts a timeout of 1500 ms. Every handler is
  a total function: none fails.
\<close>

theorem late_events_are_processed:
  "onMessage msg (relabel c p m a ts s) = relabel c p m a ts (onMessage msg s)
   \<and> connectionState (step TransportError s) = ERROR
   \<and> connectionState (step (TransportClosed h) s) = DISCONNECTED
   \<and> (\<not> isTurnComplete msg \<longrightarrow>
         currentInputRef (step (Message msg) s) = inputAfter msg s
         \<and> currentOutputRef (step (Message msg) s) = outputAfter msg s)
   \<and> (inputChunk msg = Some t \<and> t \<noteq> [] \<and> \<not> isTurnComplete msg \<longrightarrow>
         debounceTimerRef (step (Message msg) s) = Some (nextTimeout s)
         \<and> (nextTimeout s, clock s + 1500) \<in> set (timeouts (step (Message msg) s)))"
proof -
  have 1: "onMessage msg (relabel c p m a ts s) = relabel c p m a ts (onMessage msg s)"
    by (rule relabel_onMessage)
  have 2: "connectionState (step TransportError s) = ERROR
   \<and> connectionState (step (TransportClosed h) s) = DISCONNECTED"
    by (simp add: onError_def onClose_def)
  have 3: "\<not> isTurnComplete msg \<longrightarrow>
         currentInputRef (step (Message msg) s) = inputAfter msg s
         \<and> currentOutputRef (step (Message msg) s) = outputAfter msg s"
    by (simp add: onMessage_def onTurnComplete_def onOutput_fields onInput_fields outputAfter_def)
  have 4: "inputChunk msg = Some t \<and> t \<noteq> [] \<and> \<not> isTurnComplete msg \<longrightarrow>
         debounceTimerRef (step (Message msg) s) = Some (nextTimeout s)
         \<and> (nextTimeout s, clock s + 1500) \<in> set (timeouts (step (Message msg) s))"
  proof
    assume a: "inputChunk msg = Some t \<and> t \<noteq> [] \<and> \<not> isTurnComplete msg"
    then have "debounceTimerRef (onInputTranscription msg s) = Some (nextTimeout s)"
      and "(nextTimeout s, clock s + 1500) \<in> set (timeouts (onInputTranscription msg s))"
      using onInput_arms [of msg t s] by simp_all
    with a show "debounceTimerRef (step (Message msg) s) = Some (nextTimeout s)
         \<and> (nextTimeout s, clock s + 1500) \<in> set (timeouts (step (Message msg) s))"
      by (simp add: onMessage_def onTurnComplete_def onOutput_fields)
  qed
  from 1 2 3 4 show ?thesis by blast
qed

theorem late_events_are_processed_witness:
  "connectionState (run [ClickSessionButton] sessionExample) = DISCONNECTED
   \<and> sessionPromise (run [ClickSessionButton] sessionExample) = None
   \<and> inputChunk (humanDelta (utf16 ''late'')) = Some (utf16 ''late'')
   \<and> utf16 ''late'' \<noteq> [] \<and> \<not> isTurnComplete (humanDelta (utf16 ''late''))
   \<and> currentInputRef (step (Message (humanDelta (utf16 ''late'')))
         (run [ClickSessionButton] sessionExample)) = utf16 ''late''
   \<and> debounceTimerRef (step (Message (humanDelta (utf16 ''late'')))
         (run [ClickSessionButton] sessionExample)) = Some 2
   \<and> (2, 1700) \<in> set (timeouts (step (Message (humanDelta (utf16 ''late'')))
         (run [ClickSessionButton] sessionExample)))"
proof -
  let ?s = "run [ClickSessionButton] sessionExample"
  have h: "inputChunk (humanDelta (utf16 ''late'')) = Some (utf16 ''late'')"
    "utf16 ''late'' \<noteq> []" "\<not> isTurnComplete (humanDelta (utf16 ''late''))"
    by (simp_all add: message_defs utf16_def)
  note T = late_events_are_processed [where msg = "humanDelta (utf16 ''late'')" and s = ?s
        and t = "utf16 ''late''"]
  from T h have a: "currentInputRef (step (Message (humanDelta (utf16 ''late''))) ?s)
      = inputAfter (humanDelta (utf16 ''late'')) ?s" by blast
  from T h have b: "debounceTimerRef (step (Message (humanDelta (utf16 ''late''))) ?s)
      = Some (nextTimeout ?s)
    \<and> (nextTimeout ?s, clock ?s + 1500) \<in> set (timeouts (step (Message (humanDelta (utf16 ''late''))) ?s))"
    by blast
  have c: "inputAfter (humanDelta (utf16 ''late'')) ?s = utf16 ''late''"
    by (simp only: inputAfter_def afterDisconnect_fields h) simp
  from a b c h show ?thesis
    by (simp only: afterDisconnect_fields) simp
qed

text \<open>
  C8 as stated fails: after \<open>End Session\<close> on the connected example the state is
  \<open>DISCONNECTED\<close> with an empty buffer and no timeout; a human chunk delivered then
  is accumulated and starts a timeout, 1500 ms later, with the renders of the click
  and of the chunk in between, it is committed as a second item, and a late Error
  moves the state to \<open>ERROR\<close>.
\<close>

theorem late_events_counterexample:
  "connectionState (run [ClickSessionButton] sessionExample) = DISCONNECTED
   \<and> currentInputRef (run [ClickSessionButton] sessionExample) = []
   \<and> timeouts (run [ClickSessionButton] sessionExample) = []
   \<and> transcriptHistory (run [ClickSessionButton] sessionExample)
       = [userItem 200 ''-user'' (utf16 ''I felt'')]
   \<and> currentInputRef (run [ClickSessionButton, Message (humanDelta (utf16 ''late''))]
         sessionExample) = utf16 ''late''
   \<and> timeouts (run [ClickSessionButton, Message (humanDelta (utf16 ''late''))]
         sessionExample) = [(2, 1700)]
   \<and> transcriptHistory
        (run [ClickSessionButton, Render False, Message (humanDelta (utf16 ''late'')),
              Render True, Advance 1500]
           sessionExample)
       = [userItem 200 ''-user'' (utf16 ''I felt''), userItem 1700 ''-user'' (utf16 ''late'')]
   \<and> connectionState (run [ClickSessionButton, TransportError] sessionExample) = ERROR"
  by (simp add: sessionExample_def initial_def timer_defs
      message_defs handler_defs service_defs string_defs)

section \<open>The quiet period\<close>

text \<open>
  In every state that a fresh component can reach, the only timeout that can be
  pending is the one held by \<open>debounceTimerRef\<close>.
\<close>

lemma owned_subset:
  "timers_owned s \<Longrightarrow> set (timeouts s') \<subseteq> set (timeouts s) \<Longrightarrow>
   debounceTimerRef s' = debounceTimerRef s \<Longrightarrow> timers_owned s'"
  by (auto simp: timers_owned_def)

lemma commit_timeouts_subset:
  "set (timeouts (commitInputToHistory s)) \<subseteq> set (timeouts s)"
  by (auto simp: timeouts_commitInputToHistory split: option.splits)

lemma runTimers_timeouts_subset:
  "set (timeouts (runTimers t s)) \<subseteq> set (timeouts s)"
proof (induction t s rule: runTimers.induct)
  case (1 t s)
  show ?case
  proof (cases "earliest (due t s)")
    case None
    then show ?thesis by (simp add: runTimers.simps [of t s])
  next
    case (Some p)
    let ?s1 = "s\<lparr>timeouts := filter (\<lambda>q. fst q \<noteq> fst p) (timeouts s),
                  clock := max (clock s) (snd p)\<rparr>"
    have "set (timeouts (runTimers t (commitInputToHistory ?s1)))
        \<subseteq> set (timeouts (commitInputToHistory ?s1))"
      using "1.IH" [OF Some] .
    also have "\<dots> \<subseteq> set (timeouts ?s1)" by (rule commit_timeouts_subset)
    also have "\<dots> \<subseteq> set (timeouts s)" by auto
    finally show ?thesis using Some by (simp add: runTimers.simps [of t s])
  qed
qed

lemma owned_advance: "timers_owned s \<Longrightarrow> timers_owned (advance dt s)"
proof -
  assume o: "timers_owned s"
  have "debounceTimerRef (runTimers (clock s + dt) s) = debounceTimerRef s"
    by (rule runTimers_preserves) (simp_all add: commit_fields)
  with o runTimers_timeouts_subset [of "clock s + dt" s] show ?thesis
    unfolding advance_def by (rule owned_subset)
qed

lemma owned_commit: "timers_owned s \<Longrightarrow> timers_owned (commitInputToHistory s)"
  by (rule owned_subset [OF _ commit_timeouts_subset]) (simp_all add: commit_fields)

lemma owned_onMessage: "timers_owned s \<Longrightarrow> timers_owned (onMessage msg s)"
proof -
  assume "timers_owned s"
  then have "timers_owned (onInputTranscription msg s)" by (rule onInput_timers)
  then have b: "timers_owned (onOutputTranscription msg (onInputTranscription msg s))"
    by (simp add: timers_owned_def onOutput_fields)
  show ?thesis
  proof (cases "isTurnComplete msg")
    case True
    let ?b = "onOutputTranscription msg (onInputTranscription msg s)"
    from b have "timers_owned (commitInputToHistory ?b)" by (rule owned_commit)
    then show ?thesis
      using True by (simp add: onMessage_def timers_owned_def onTurnComplete_fields commit_fields)
  next
    case False
    with b show ?thesis by (simp add: onMessage_def onTurnComplete_def)
  qed
qed

lemma service_disconnect_timers:
  "service_disconnect s = Inl (e, s') \<or> service_disconnect s = Inr s' \<Longrightarrow>
   timeouts s' = timeouts s \<and> debounceTimerRef s' = debounceTimerRef s"
  by (cases "mediaStream s"; cases "inputAudioContext s"; cases "sessionPromise s")
     (auto simp: service_disconnect_def Let_def split: promise.splits)

lemma owned_handleDisconnect:
  assumes o: "timers_owned s"
    and h: "handleDisconnect s = Inl (e, s') \<or> handleDisconnect s = Inr s'"
  shows "timers_owned s'"
proof (cases "service_disconnect s")
  case (Inl x)
  with h have "service_disconnect s = Inl (e, s')" by (simp add: handleDisconnect_def)
  with o show ?thesis using service_disconnect_timers [of s e s'] by (simp add: timers_owned_def)
next
  case (Inr s1)
  with h have s': "s' = (commitInputToHistory (s1\<lparr>connectionState := DISCONNECTED\<rparr>))
            \<lparr>liveInputText := [], liveOutputText := [],
             currentInputRef := [], currentOutputRef := []\<rparr>"
    by (simp add: handleDisconnect_def Let_def)
  from Inr o have "timers_owned (s1\<lparr>connectionState := DISCONNECTED\<rparr>)"
    using service_disconnect_timers [of s e s1] by (simp add: timers_owned_def)
  then have "timers_owned (commitInputToHistory (s1\<lparr>connectionState := DISCONNECTED\<rparr>))"
    by (rule owned_commit)
  then show ?thesis by (simp add: s' timers_owned_def)
qed

lemma owned_step: "timers_owned s \<Longrightarrow> timers_owned (step e s)"
proof (cases e)
  case ClickSessionButton
  assume o: "timers_owned s"
  show ?thesis
  proof (cases "connectionState s = CONNECTED")
    case True
    with ClickSessionButton o show ?thesis
      using owned_handleDisconnect [OF o, of _ "step e s"]
      by (cases "handleDisconnect s") auto
  next
    case False
    with ClickSessionButton o show ?thesis
      by (simp add: timers_owned_def handleConnect_def service_connect_def)
  qed
next
  case (Message msg)
  assume "timers_owned s"
  with Message show ?thesis by (simp add: owned_onMessage)
next
  case (Advance dt)
  assume "timers_owned s"
  with Advance show ?thesis by (simp add: owned_advance)
next
  case (TransportOpened h a)
  assume "timers_owned s"
  with TransportOpened show ?thesis
    by (cases a) (simp_all add: timers_owned_def service_defs Let_def split: option.splits promise.splits)
qed (simp_all add: timers_owned_def handleManualSubmit_def connectFailed_def onError_def onClose_def
      render_def setTranscriptHistory_other)

lemma owned_run: "timers_owned s \<Longrightarrow> timers_owned (run es s)"
  by (induction es arbitrary: s) (simp_all add: owned_step del: step.simps)

lemma owned_reachable: "timers_owned (run es (initial h))"
  by (rule owned_run) (simp add: timers_owned_def initial_def)


















lemma elapsed_Cons: "elapsed (e # es) = elapsed [e] + elapsed es"
  by (cases e) simp_all

lemma elapsed_append: "elapsed (a @ b) = elapsed a + elapsed b"
proof (induction a)
  case Nil
  show ?case by simp
next
  case (Cons e a)
  then show ?case using elapsed_Cons [of e "a @ b"] elapsed_Cons [of e a] by simp
qed








section \<open>Audio frames\<close>

lemma fillInt16_eq:
  "i \<le> length frame \<Longrightarrow> length a = length frame \<Longrightarrow>
   fillInt16 frame a i = take i a @ map quantize (drop i frame)"
proof (induction frame a i rule: fillInt16.induct)
  case (1 frame a i)
  show ?case
  proof (cases "i < length frame")
    case True
    let ?a = "a[i := toInt16 (scaleSample (clampSample (frame ! i)))]"
    from True 1 have "fillInt16 frame ?a (Suc i) = take (Suc i) ?a @ map quantize (drop (Suc i) frame)"
      by simp
    moreover from True "1.prems" have "take (Suc i) ?a = take i a @ [quantize (frame ! i)]"
      by (simp add: take_Suc_conv_app_nth quantize_def)
    moreover from True have "drop i frame = frame ! i # drop (Suc i) frame"
      by (simp add: Cons_nth_drop_Suc)
    ultimately show ?thesis using True by (simp add: fillInt16.simps [of frame a i])
  next
    case False
    with "1.prems" show ?thesis by (subst fillInt16.simps) simp
  qed
qed

lemma fillInt16_map: "fillInt16 frame (replicate (length frame) 0) 0 = map quantize frame"
  by (simp add: fillInt16_eq)

lemma binaryString_eq:
  "i \<le> length bytes \<Longrightarrow>
   binaryString bytes b i = b @ map fromCharCode (drop i bytes)"
proof (induction bytes b i rule: binaryString.induct)
  case (1 bytes b i)
  show ?case
  proof (cases "i < length bytes")
    case True
    with 1 have "binaryString bytes (b @ [fromCharCode (bytes ! i)]) (Suc i)
        = (b @ [fromCharCode (bytes ! i)]) @ map fromCharCode (drop (Suc i) bytes)"
      by simp
    moreover from True have "drop i bytes = bytes ! i # drop (Suc i) bytes"
      by (simp add: Cons_nth_drop_Suc)
    ultimately show ?thesis using True by (simp add: binaryString.simps [of bytes b i])
  next
    case False
    with "1.prems" show ?thesis by (subst binaryString.simps) simp
  qed
qed

lemma uint8View_snoc: "uint8View (ws @ [w]) = uint8View ws @ pcm16le w"
proof -
  let ?f = "\<lambda>xs k. if even k then ucast (xs ! (k div 2)) :: 8 word
               else ucast (drop_bit 8 (xs ! (k div 2)))"
  have "[0 ..< 2 * length (ws @ [w])] = [0 ..< 2 * length ws] @ [2 * length ws, Suc (2 * length ws)]"
    by simp
  then have "uint8View (ws @ [w]) = map (?f (ws @ [w])) [0 ..< 2 * length ws]
      @ [?f (ws @ [w]) (2 * length ws), ?f (ws @ [w]) (Suc (2 * length ws))]"
    unfolding uint8View_def by (simp only: map_append list.map)
  moreover have "map (?f (ws @ [w])) [0 ..< 2 * length ws] = map (?f ws) [0 ..< 2 * length ws]"
    by (rule map_cong) (auto simp: nth_append)
  ultimately show ?thesis by (simp add: uint8View_def pcm16le_def)
qed

lemma uint8View_concat: "uint8View ws = concat (map pcm16le ws)"
proof (induction ws rule: rev_induct)
  case Nil
  show ?case by (simp add: uint8View_def)
next
  case (snoc w ws)
  then show ?case by (simp add: uint8View_snoc)
qed

lemma unat_byte: "unat (b :: 8 word) < 256"
  using unsigned_less [of b, where 'a = nat] by simp

lemma ucast_byte_le: "(ucast (b :: 8 word) :: 16 word) \<le> 0xFF"
proof -
  have "unat (ucast b :: 16 word) = unat b"
    using unat_byte [of b] by (simp add: unsigned_ucast_eq take_bit_nat_eq_self_iff)
  then show ?thesis using unat_byte [of b] by (simp add: word_le_nat_alt)
qed

lemma ucast_byte_id: "(ucast (ucast (b :: 8 word) :: 16 word) :: 8 word) = b"
  by (rule ucast_up_ucast_id) (simp add: is_up)

lemma btoa_bytes: "btoa (map fromCharCode bytes) = Inr (base64 bytes)"
proof -
  have "list_all (\<lambda>c. c \<le> 0xFF) (map fromCharCode bytes)"
    by (simp add: list_all_iff fromCharCode_def ucast_byte_le)
  moreover have "map ucast (map fromCharCode bytes) = bytes"
    by (simp add: fromCharCode_def ucast_byte_id comp_def)
  ultimately show ?thesis by (simp add: btoa_def)
qed

lemma createBlob_eq:
  "createBlob frame =
     Inr \<lparr>data = base64 (concat (map (pcm16le \<circ> quantize) frame)),
          mimeType = utf16 ''audio/pcm;rate=16000''\<rparr>"
proof -
  have "binaryString (uint8View (map quantize frame)) [] 0
      = map fromCharCode (concat (map pcm16le (map quantize frame)))"
    by (simp add: binaryString_eq uint8View_concat)
  then show ?thesis
    by (simp add: createBlob_def Let_def fillInt16_map btoa_bytes comp_def)
qed

lemma length_base64: "length (base64 bs) = 4 * ((length bs + 2) div 3)"
proof (induction bs rule: base64.induct)
  case (4 a b c bs)
  have "(length (a # b # c # bs) + 2) div 3 = Suc ((length bs + 2) div 3)" by simp
  with 4 show ?case by simp
qed simp_all

lemma trunc_range:
  assumes "- 1 \<le> c" "c \<le> 1"
  shows "- 32768 \<le> trunc (if c < 0 then c * 0x8000 else c * 0x7FFF)"
    and "trunc (if c < 0 then c * 0x8000 else c * 0x7FFF) \<le> 32767"
proof -
  show "- 32768 \<le> trunc (if c < 0 then c * 0x8000 else c * 0x7FFF)"
  proof (cases "c < 0")
    case True
    from assms(1) have "- 32768 \<le> c * 32768" by simp
    then have "- 32768 \<le> \<lceil>c * 32768\<rceil>" by (simp add: le_ceiling_iff)
    with True show ?thesis by (simp add: trunc_def mult_less_0_iff)
  next
    case False
    then have "0 \<le> c * 32767" by simp
    then have "0 \<le> \<lfloor>c * 32767\<rfloor>" by simp
    with False show ?thesis by (simp add: trunc_def mult_less_0_iff)
  qed
  show "trunc (if c < 0 then c * 0x8000 else c * 0x7FFF) \<le> 32767"
  proof (cases "c < 0")
    case True
    then have "c * 32768 \<le> 0" by simp
    then have "\<lceil>c * 32768\<rceil> \<le> 0" by (simp add: ceiling_le_iff)
    with True show ?thesis by (simp add: trunc_def mult_less_0_iff)
  next
    case False
    from assms(2) have "c * 32767 \<le> 32767" by simp
    then have "\<lfloor>c * 32767\<rfloor> \<le> 32767" by (simp add: floor_le_iff)
    with False show ?thesis by (simp add: trunc_def mult_less_0_iff)
  qed
qed

lemma sint_int16: "- 32768 \<le> n \<Longrightarrow> n \<le> 32767 \<Longrightarrow> sint (word_of_int n :: 16 word) = n"
  by (simp add: sint_sbintrunc' signed_take_bit_int_eq_self)

lemma quantize_Num:
  "sint (quantize (Num r)) =
     trunc (if max (- 1) (min 1 r) < 0 then max (- 1) (min 1 r) * 0x8000
            else max (- 1) (min 1 r) * 0x7FFF)"
proof -
  let ?c = "max (- 1) (min 1 r)"
  have c: "- 1 \<le> ?c" "?c \<le> 1" by simp_all
  have q: "quantize (Num r) = word_of_int (trunc (if ?c < 0 then ?c * 0x8000 else ?c * 0x7FFF))"
  proof (cases "?c < 0")
    case True
    show ?thesis
      unfolding quantize_def clampSample_def scaleSample_def toInt16_def
      by (simp only: sample.case True if_True)
  next
    case False
    show ?thesis
      unfolding quantize_def clampSample_def scaleSample_def toInt16_def
      by (simp only: sample.case False if_False)
  qed
  show ?thesis
    unfolding q by (rule sint_int16) (rule trunc_range [OF c])+
qed

lemma quantize_special:
  "quantize NaN = 0" "quantize PosInf = 0x7FFF" "quantize NegInf = 0x8000"
  by (simp_all add: quantize_def clampSample_def scaleSample_def toInt16_def trunc_def)

lemma pcm16le_value: "unat (pcm16le w ! 0) + 256 * unat (pcm16le w ! 1) = unat w"
proof -
  have a: "unat (ucast w :: 8 word) = unat w mod 256"
    by (simp add: unsigned_ucast_eq take_bit_eq_mod)
  have "unat (drop_bit 8 w) = unat w div 256"
    by (simp add: unat_drop_bit_eq drop_bit_eq_div unat_div_distrib)
  moreover have "unat w div 256 < 256"
    using unsigned_less [of w, where 'a = nat] by simp
  ultimately have b: "unat (ucast (drop_bit 8 w) :: 8 word) = unat w div 256"
    by (simp add: unsigned_ucast_eq take_bit_eq_mod)
  show ?thesis by (simp add: pcm16le_def a b)
qed

lemma example_quantize:
  "map quantize [Num 0, Num 1, Num (- 1), Num (1 / 2), NaN, Num 3, Num (- 1 / 2)]
   = [0, 0x7FFF, 0x8000, 0x3FFF, 0, 0x7FFF, 0xC000]"
  by (simp add: quantize_def clampSample_def scaleSample_def toInt16_def trunc_def)

lemma example_bytes:
  "concat (map pcm16le [0, 0x7FFF, 0x8000, 0x3FFF, 0 :: 16 word])
   = [0, 0, 255, 127, 0, 128, 255, 63, 0, 0]"
  by (simp add: pcm16le_def)

lemma example_base64:
  "base64 [0, 0, 255, 127, 0, 128, 255, 63, 0, 0] = utf16 ''AAD/fwCA/z8AAA==''"
  by (simp add: b64digit_def utf16_def)

text \<open>
  C9. For every frame \<open>createBlob\<close> returns, without error, the MIME type
  \<open>audio/pcm;rate=16000\<close> and as data the Base64 encoding of the frame's samples,
  each as two bytes in little-endian order. The 16-bit sample of a number is the
  number clamped to the interval from -1 to 1, multiplied by \<open>0x8000\<close> if negative
  and by \<open>0x7FFF\<close> otherwise, and truncated towards zero; as a signed value it is
  exactly that integer, so nothing wraps around. NaN becomes 0. The two bytes of a
  sample are its low and its high byte. A frame of 4096 samples gives 10924
  characters.
\<close>

theorem createBlob_pcm16_base64:
  "createBlob frame =
     Inr \<lparr>data = base64 (concat (map (pcm16le \<circ> quantize) frame)),
          mimeType = utf16 ''audio/pcm;rate=16000''\<rparr>
   \<and> sint (quantize (Num r)) =
       trunc (if max (- 1) (min 1 r) < 0 then max (- 1) (min 1 r) * 0x8000
              else max (- 1) (min 1 r) * 0x7FFF)
   \<and> quantize NaN = 0 \<and> quantize PosInf = 0x7FFF \<and> quantize NegInf = 0x8000
   \<and> unat (pcm16le w ! 0) + 256 * unat (pcm16le w ! 1) = unat w
   \<and> (length frame = 4096 \<longrightarrow>
        length (base64 (concat (map (pcm16le \<circ> quantize) frame))) = 10924)"
proof -
  have "length (concat (map (pcm16le \<circ> quantize) frame)) = 2 * length frame"
    by (induction frame) (simp_all add: pcm16le_def)
  then have "length frame = 4096 \<longrightarrow>
        length (base64 (concat (map (pcm16le \<circ> quantize) frame))) = 10924"
    by (simp add: length_base64)
  then show ?thesis
    using createBlob_eq [of frame] quantize_Num [of r] quantize_special pcm16le_value [of w]
    by blast
qed

theorem createBlob_pcm16_base64_witness:
  "length (replicate 4096 (Num 1)) = 4096
   \<and> length (base64 (concat (map (pcm16le \<circ> quantize) (replicate 4096 (Num 1))))) = 10924
   \<and> createBlob [Num 0, Num 1, Num (- 1), Num (1 / 2), NaN] =
       Inr \<lparr>data = utf16 ''AAD/fwCA/z8AAA=='', mimeType = utf16 ''audio/pcm;rate=16000''\<rparr>
   \<and> sint (quantize (Num (1 / 2))) = 16383"
proof -
  have l: "length (replicate 4096 (Num 1)) = 4096" by simp
  from createBlob_pcm16_base64 [of "replicate 4096 (Num 1)" "1 / 2" 0] l
  have a: "length (base64 (concat (map (pcm16le \<circ> quantize) (replicate 4096 (Num 1))))) = 10924"
    and b: "sint (quantize (Num (1 / 2))) =
       trunc (if max (- 1) (min 1 (1 / 2 :: real)) < 0 then max (- 1) (min 1 (1 / 2)) * 0x8000
              else max (- 1) (min 1 (1 / 2)) * 0x7FFF)"
    by blast+
  have e: "map quantize [Num 0, Num 1, Num (- 1), Num (1 / 2), NaN]
      = [0, 0x7FFF, 0x8000, 0x3FFF, 0]"
    using example_quantize by simp
  from createBlob_pcm16_base64 [of "[Num 0, Num 1, Num (- 1), Num (1 / 2), NaN]" 0 0]
  have c: "createBlob [Num 0, Num 1, Num (- 1), Num (1 / 2), NaN] =
       Inr \<lparr>data = utf16 ''AAD/fwCA/z8AAA=='', mimeType = utf16 ''audio/pcm;rate=16000''\<rparr>"
    by (simp only: map_map [symmetric] e example_bytes example_base64)
  from b have d: "sint (quantize (Num (1 / 2))) = 16383" by (simp add: trunc_def)
  from l a c d show ?thesis by blast
qed

end
